theory Spec2Isabelle
  imports Main "HOL-Library.Sublist" "HOL-Library.List_Lexorder" "HOL-Library.Char_ord"
begin

section \<open>Strings and the library functions the migrator calls\<close>

text \<open>
  Go strings are byte sequences; they are modelled as \<open>string\<close> (a list of 8-bit
  characters).  The functions of this section are the ones of Go's standard library that
  \<^verbatim>\<open>main.go\<close> calls on strings: \<^verbatim>\<open>strings.Split\<close>, \<^verbatim>\<open>strings.ToLower\<close>,
  \<^verbatim>\<open>strings.Index\<close>, \<^verbatim>\<open>filepath.Base\<close> and \<^verbatim>\<open>strconv.ParseInt\<close>.
\<close>

text \<open>
  \<^verbatim>\<open>strings.Split(s, sep)\<close> for a separator of one byte.  The result is never empty:
  splitting the empty string gives one empty field.
\<close>

fun split_on :: "char \<Rightarrow> string \<Rightarrow> string list" where
  "split_on sep [] = [[]]"
| "split_on sep (c # cs) =
     (if c = sep then [] # split_on sep cs
      else (case split_on sep cs of
              [] \<Rightarrow> [[c]]
            | p # ps \<Rightarrow> (c # p) # ps))"

text \<open>The inverse direction, \<^verbatim>\<open>strings.Join\<close>, used to state that splitting loses nothing.\<close>

fun join_with :: "char \<Rightarrow> string list \<Rightarrow> string" where
  "join_with sep [] = []"
| "join_with sep [p] = p"
| "join_with sep (p # q # ps) = p @ sep # join_with sep (q # ps)"

text \<open>
  \<^verbatim>\<open>strings.ToLower\<close> on ASCII text: the bytes \<open>A\<close> to \<open>Z\<close> move to \<open>a\<close> to \<open>z\<close>, every
  other byte stays.  (On bytes above 127 Go decodes UTF-8 and applies the Unicode case
  mapping; file names outside ASCII are beyond this model.)
\<close>

definition ascii_lower :: "char \<Rightarrow> char" where
  "ascii_lower c =
     (let n = (of_char c :: nat)
      in if 65 \<le> n \<and> n \<le> 90 then char_of (n + 32) else c)"

definition ToLower :: "string \<Rightarrow> string" where
  "ToLower s = map ascii_lower s"

text \<open>
  \<^verbatim>\<open>filepath.Base\<close> with the separator \<open>/\<close> (the binary is built for Linux): the empty
  path gives \<open>.\<close>, trailing separators are dropped, the last element is what follows the
  last separator left, and a path of separators only gives \<open>/\<close>.
\<close>

definition Base :: "string \<Rightarrow> string" where
  "Base path =
     (if path = [] then ''.''
      else (let stripped = rev (dropWhile (\<lambda>c. c = CHR ''/'') (rev path));
                elem = rev (takeWhile (\<lambda>c. c \<noteq> CHR ''/'') (rev stripped))
            in if elem = [] then ''/'' else elem))"

text \<open>
  The slice expression \<^verbatim>\<open>s[:len(s)-4]\<close>.  Go panics when the string has fewer than four
  bytes; \<open>None\<close> is that panic.
\<close>

definition drop_ext :: "string \<Rightarrow> string option" where
  "drop_ext s = (if length s < 4 then None else Some (take (length s - 4) s))"

text \<open>
  \<^verbatim>\<open>strconv.ParseInt(s, 10, 32)\<close>.  \<open>ParseUint\<close> reads decimal digits only and stops with
  the largest 32-bit value as soon as the number passes it; \<open>ParseInt\<close> takes an optional
  sign first and clamps to the signed 32-bit range.  Both return a value together with
  an error.
\<close>

datatype num_error = ErrSyntax | ErrRange

definition is_digit :: "char \<Rightarrow> bool" where
  "is_digit c = (let n = (of_char c :: nat) in 48 \<le> n \<and> n \<le> 57)"

definition digit_val :: "char \<Rightarrow> nat" where
  "digit_val c = (of_char c :: nat) - 48"

fun ParseUint_from :: "nat \<Rightarrow> string \<Rightarrow> nat \<times> num_error option" where
  "ParseUint_from n [] = (n, None)"
| "ParseUint_from n (c # cs) =
     (if \<not> is_digit c then (0, Some ErrSyntax)
      else (let n1 = n * 10 + digit_val c
            in if n1 > 4294967295 then (4294967295, Some ErrRange)
               else ParseUint_from n1 cs))"

definition ParseUint :: "string \<Rightarrow> nat \<times> num_error option" where
  "ParseUint s = (if s = [] then (0, Some ErrSyntax) else ParseUint_from 0 s)"

definition ParseInt :: "string \<Rightarrow> int \<times> num_error option" where
  "ParseInt s =
     (if s = [] then (0, Some ErrSyntax)
      else (let neg = (hd s = CHR ''-'');
                body = (if hd s = CHR ''+'' \<or> hd s = CHR ''-'' then tl s else s);
                (un, err) = ParseUint body
            in if err = Some ErrSyntax then (0, err)
               else if \<not> neg \<and> un \<ge> 2147483648 then (2147483647, Some ErrRange)
               else if neg \<and> un > 2147483648 then (- 2147483648, Some ErrRange)
               else (if neg then - int un else int un, None)))"

section \<open>Connection descriptors\<close>

record dbCon =
  driver :: string
  host :: string
  port :: string
  dbname :: string
  user :: string
  password :: string
  sslmode :: string

text \<open>The zero value \<^verbatim>\<open>dbCon{}\<close>: every field is the empty string.\<close>

definition dbCon_zero :: dbCon where
  "dbCon_zero =
     \<lparr>driver = [], host = [], port = [], dbname = [], user = [], password = [], sslmode = []\<rparr>"

text \<open>
  The errors the program returns.  Each constructor is one \<^verbatim>\<open>fmt.Errorf\<close> of
  \<^verbatim>\<open>main.go\<close> and carries the values that message formats, in the order of the format
  string; \<open>DriverError\<close> is an error of \<^verbatim>\<open>database/sql\<close> that the program hands on as
  it got it, and \<open>Panic\<close> is the run-time panic of a slice expression out of range.
\<close>

datatype db_error =
    ErrNoRows
  | ConnectionFailed
  | StatementFailed
  | UniqueViolation
  | NoSuchTable
  | TableExists
  | DatabaseExists
  | ScanFailed
  | UnknownDriver

datatype error =
    BadPartCount nat
  | NotPostgres string
  | ConnectRootFailed string string db_error
  | CreateDatabaseFailed string db_error
  | ConnectNewFailed string db_error
  | ReadDatatypeFailed db_error
  | ReadMaxFailed db_error
  | VersionMismatch int int
  | ReadFileFailed string
  | DriverError db_error
  | Panic


text \<open>The method \<^verbatim>\<open>string()\<close> of a descriptor, used in error messages.\<close>

definition dbCon_string :: "dbCon \<Rightarrow> string" where
  "dbCon_string c = host c @ '':'' @ dbname c"

text \<open>
  \<open>parseDBConStr\<close> returns Go's pair of a descriptor and an error; with the wrong part
  count the descriptor is the zero value, with the wrong driver it is the filled one.
\<close>

definition parseDBConStr :: "string \<Rightarrow> dbCon \<times> error option" where
  "parseDBConStr dbStr =
     (let parts = split_on CHR '':'' dbStr
      in if length parts \<noteq> 6 then (dbCon_zero, Some (BadPartCount (length parts)))
         else (let c = \<lparr>driver = parts ! 0, host = parts ! 1, port = parts ! 2,
                         dbname = parts ! 3, user = parts ! 4, password = parts ! 5,
                         sslmode = []\<rparr>
               in if driver c \<noteq> ''postgres'' then (c, Some (NotPostgres (driver c)))
                  else (c, None)))"

section \<open>Migration file names\<close>

text \<open>
  \<open>legacyMigrationVersion\<close> returns the pair \<open>(version, isLegacy)\<close>; \<open>None\<close> is the
  panic of the slice expression on a base name shorter than four bytes.  The error of
  \<open>ParseInt\<close> is dropped, as in the source.
\<close>

definition legacyMigrationVersion :: "string \<Rightarrow> (int \<times> bool) option" where
  "legacyMigrationVersion sqlfile =
     (case drop_ext (Base sqlfile) of
        None \<Rightarrow> None
      | Some s \<Rightarrow>
          (let parts = split_on CHR ''-'' s
           in if length parts \<noteq> 2 \<or> parts ! 0 \<noteq> ''0000'' \<or> length (parts ! 1) = 0
              then Some (0, False)
              else Some (fst (ParseInt (parts ! 1)), True)))"

definition migrationNameFromFile :: "string \<Rightarrow> string option" where
  "migrationNameFromFile filename =
     (case drop_ext (Base filename) of
        None \<Rightarrow> None
      | Some name \<Rightarrow> Some (ToLower name))"

fun maxLegacyMigrationVersion_from :: "int \<Rightarrow> string list \<Rightarrow> int option" where
  "maxLegacyMigrationVersion_from m [] = Some m"
| "maxLegacyMigrationVersion_from m (file # files) =
     (case legacyMigrationVersion file of
        None \<Rightarrow> None
      | Some (v, isLegacy) \<Rightarrow>
          maxLegacyMigrationVersion_from (if isLegacy \<and> v > m then v else m) files)"

definition maxLegacyMigrationVersion :: "string list \<Rightarrow> int option" where
  "maxLegacyMigrationVersion sqlFiles = maxLegacyMigrationVersion_from 0 sqlFiles"

text \<open>
  \<^verbatim>\<open>strconv\<close>'s decimal rendering of an integer, which the driver uses when an integer
  column is scanned into a Go string.
\<close>

function nat_digits :: "nat \<Rightarrow> string" where
  "nat_digits n =
     (if n < 10 then [char_of (48 + n)]
      else nat_digits (n div 10) @ [char_of (48 + n mod 10)])"
  by pat_completeness auto
termination
  by (relation "measure id") auto

definition FormatInt :: "int \<Rightarrow> string" where
  "FormatInt i = (if i < 0 then CHR ''-'' # nat_digits (nat (- i)) else nat_digits (nat i))"

section \<open>The database behind the handle\<close>

text \<open>
  The program talks to PostgreSQL through \<^verbatim>\<open>database/sql\<close>.  The model keeps what the
  program can observe of the database it is connected to:

  \<^item> the table \<^verbatim>\<open>schema_migrations\<close>: absent, the Albion table with an integer column,
    or the table of this program with a string column that is its primary key;
  \<^item> everything else in the database, of a type \<open>'u\<close> left open.  A migration file's SQL
    acts on this part through \<open>execSQL\<close>; migration files that touch
    \<^verbatim>\<open>schema_migrations\<close> themselves are outside the model.

  A \<open>world\<close> is the database the descriptor names on its server: whether it exists
  (\<open>created\<close>), its committed content (for a database that does not exist yet, the
  content it gets when created, apart from the table), the schedule of connection
  failures to come (one entry for each later call of the driver, \<open>True\<close> for a call that
  fails; an empty schedule is a connection that stays up), and the lines written to
  standard output so far.  An \<open>env\<close> is what the run reads without changing it: the
  migration files' contents (\<open>None\<close> for a file that cannot be read) and the meaning of
  SQL text on the user data (\<open>None\<close> for a statement the server rejects).
\<close>

datatype meta_table = Absent | Legacy "int list" | Current "string list"

record 'u dbstate =
  schema_migrations :: meta_table
  userdata :: 'u

record 'u world =
  created :: bool
  committed :: "'u dbstate"
  faults :: "bool list"
  stdout :: "string list"

record 'u env =
  readFile :: "string \<Rightarrow> string option"
  execSQL :: "string \<Rightarrow> 'u \<Rightarrow> 'u option"

text \<open>
  Every call of the driver consumes one entry of the schedule.  A call on the database
  of the descriptor fails when the schedule says so, and always when that database does
  not exist; a call on the server's administrative database \<^verbatim>\<open>postgres\<close>, which is
  taken to exist, fails only when the schedule says so.  The result is whether the call
  failed.
\<close>

definition admin_call :: "'u world \<Rightarrow> bool \<times> 'u world" where
  "admin_call w =
     (case faults w of
        [] \<Rightarrow> (False, w)
      | failed # later \<Rightarrow> (failed, w\<lparr>faults := later\<rparr>))"

definition driver_call :: "'u world \<Rightarrow> bool \<times> 'u world" where
  "driver_call w =
     (case faults w of
        [] \<Rightarrow> (\<not> created w, w)
      | failed # later \<Rightarrow> (failed \<or> \<not> created w, w\<lparr>faults := later\<rparr>))"

text \<open>
  \<^verbatim>\<open>sql.Open\<close> opens no connection; it returns an error only for a driver that is not
  registered, and the program registers \<^verbatim>\<open>postgres\<close> alone.  \<open>sql_Open\<close> is that error.
\<close>

definition sql_Open :: "dbCon \<Rightarrow> db_error option" where
  "sql_Open con = (if driver con = ''postgres'' then None else Some UnknownDriver)"

text \<open>
  \<^verbatim>\<open>db.Exec(fmt.Sprintf("CREATE DATABASE %v", con.dbname))\<close> on the administrative
  database.  The server
  refuses to create a database that exists; the new database has no tables.  Database
  names are taken to be plain identifiers, which need no quoting.
\<close>

definition exec_create_database :: "'u world \<Rightarrow> db_error option \<times> 'u world" where
  "exec_create_database w =
     (let (failed, w1) = admin_call w
      in if failed then (Some ConnectionFailed, w1)
         else if created w1 then (Some DatabaseExists, w1)
         else (None, w1\<lparr>created := True,
                          committed := (committed w1)\<lparr>schema_migrations := Absent\<rparr>\<rparr>))"

text \<open>\<^verbatim>\<open>db.Exec("SELECT 1")\<close>, the query that makes the driver connect.\<close>

definition exec_select_1 :: "'u world \<Rightarrow> db_error option \<times> 'u world" where
  "exec_select_1 w =
     (let (failed, w1) = driver_call w
      in if failed then (Some ConnectionFailed, w1) else (None, w1))"

text \<open>
  \<^verbatim>\<open>SELECT data_type FROM information_schema.columns WHERE table_name =
  'schema_migrations' AND column_name = 'version'\<close>, scanned into a string.  PostgreSQL
  reports \<^verbatim>\<open>integer\<close> for the Albion table and \<^verbatim>\<open>character varying\<close> for a \<^verbatim>\<open>VARCHAR\<close>
  column; with no such table the scan gives \<^verbatim>\<open>sql.ErrNoRows\<close>.
\<close>

definition query_data_type :: "'u world \<Rightarrow> (db_error + string) \<times> 'u world" where
  "query_data_type w =
     (let (failed, w1) = driver_call w
      in if failed then (Inl ConnectionFailed, w1)
         else (case schema_migrations (committed w1) of
                 Absent \<Rightarrow> (Inl ErrNoRows, w1)
               | Legacy rows \<Rightarrow> (Inr ''integer'', w1)
               | Current rows \<Rightarrow> (Inr ''character varying'', w1)))"

text \<open>
  \<^verbatim>\<open>db.Exec(metaTableCreateStatement)\<close> outside a transaction: the statement
  \<^verbatim>\<open>CREATE TABLE schema_migrations (version VARCHAR PRIMARY KEY);\<close> commits on its own.
\<close>

definition exec_create_table :: "'u world \<Rightarrow> db_error option \<times> 'u world" where
  "exec_create_table w =
     (let (failed, w1) = driver_call w
      in if failed then (Some ConnectionFailed, w1)
         else (case schema_migrations (committed w1) of
                 Absent \<Rightarrow>
                   (None, w1\<lparr>committed := (committed w1)\<lparr>schema_migrations := Current []\<rparr>\<rparr>)
               | Legacy rows \<Rightarrow> (Some TableExists, w1)
               | Current rows \<Rightarrow> (Some TableExists, w1)))"

text \<open>
  \<^verbatim>\<open>SELECT max(version) FROM schema_migrations\<close>, scanned into an \<^verbatim>\<open>int\<close>.  On an empty
  table the maximum is \<^verbatim>\<open>NULL\<close>, which does not scan into an \<^verbatim>\<open>int\<close>.  The program
  sends this query to the Albion table only; on the string table the model lets the scan
  fail.
\<close>

definition query_max_version :: "'u world \<Rightarrow> (db_error + int) \<times> 'u world" where
  "query_max_version w =
     (let (failed, w1) = driver_call w
      in if failed then (Inl ConnectionFailed, w1)
         else (case schema_migrations (committed w1) of
                 Absent \<Rightarrow> (Inl NoSuchTable, w1)
               | Legacy rows \<Rightarrow>
                   (case rows of
                      [] \<Rightarrow> (Inl ScanFailed, w1)
                    | v # vs \<Rightarrow> (Inr (fold max vs v), w1))
               | Current rows \<Rightarrow> (Inl ScanFailed, w1)))"

text \<open>
  A transaction works on a copy of the committed content.  \<open>Begin\<close> takes the copy,
  \<open>Commit\<close> installs it, and \<^verbatim>\<open>tx.Rollback()\<close> drops it: the program ignores the
  result of \<open>Rollback\<close>, so a rollback is the absence of a commit and has no entry in the
  schedule.  A commit that fails leaves the committed content as it was.
\<close>

definition Begin :: "'u world \<Rightarrow> (db_error + 'u dbstate) \<times> 'u world" where
  "Begin w =
     (let (failed, w1) = driver_call w
      in if failed then (Inl ConnectionFailed, w1) else (Inr (committed w1), w1))"

definition Commit :: "'u dbstate \<Rightarrow> 'u world \<Rightarrow> db_error option \<times> 'u world" where
  "Commit tx w =
     (let (failed, w1) = driver_call w
      in if failed then (Some ConnectionFailed, w1) else (None, w1\<lparr>committed := tx\<rparr>))"

text \<open>\<^verbatim>\<open>tx.Exec(string(sql))\<close>: the text of a migration file, run on the user data.\<close>

definition tx_exec_sql ::
  "'u env \<Rightarrow> string \<Rightarrow> 'u dbstate \<Rightarrow> 'u world \<Rightarrow> (db_error + 'u dbstate) \<times> 'u world" where
  "tx_exec_sql env sql tx w =
     (let (failed, w1) = driver_call w
      in if failed then (Inl ConnectionFailed, w1)
         else (case execSQL env sql (userdata tx) of
                 None \<Rightarrow> (Inl StatementFailed, w1)
               | Some u \<Rightarrow> (Inr (tx\<lparr>userdata := u\<rparr>), w1)))"

text \<open>
  \<^verbatim>\<open>tx.Exec("INSERT INTO schema_migrations (version) VALUES ($1)", name)\<close>.  The string
  table refuses a name it already holds (the column is the primary key).  The program
  inserts names only after the table has become the string table; the model lets the
  integer table refuse every name.
\<close>

definition tx_insert_version ::
  "string \<Rightarrow> 'u dbstate \<Rightarrow> 'u world \<Rightarrow> (db_error + 'u dbstate) \<times> 'u world" where
  "tx_insert_version name tx w =
     (let (failed, w1) = driver_call w
      in if failed then (Inl ConnectionFailed, w1)
         else (case schema_migrations tx of
                 Absent \<Rightarrow> (Inl NoSuchTable, w1)
               | Legacy rows \<Rightarrow> (Inl StatementFailed, w1)
               | Current rows \<Rightarrow>
                   if name \<in> set rows then (Inl UniqueViolation, w1)
                   else (Inr (tx\<lparr>schema_migrations := Current (rows @ [name])\<rparr>), w1)))"

text \<open>
  \<^verbatim>\<open>tx.Exec("DROP TABLE schema_migrations; " + metaTableCreateStatement)\<close>: the old table
  goes, with its rows, and the empty string table takes its place.
\<close>

definition tx_drop_create ::
  "'u dbstate \<Rightarrow> 'u world \<Rightarrow> (db_error + 'u dbstate) \<times> 'u world" where
  "tx_drop_create tx w =
     (let (failed, w1) = driver_call w
      in if failed then (Inl ConnectionFailed, w1)
         else (case schema_migrations tx of
                 Absent \<Rightarrow> (Inl NoSuchTable, w1)
               | Legacy rows \<Rightarrow> (Inr (tx\<lparr>schema_migrations := Current []\<rparr>), w1)
               | Current rows \<Rightarrow> (Inr (tx\<lparr>schema_migrations := Current []\<rparr>), w1)))"

section \<open>The migrator\<close>

text \<open>
  \<open>connectOrCreate\<close> returns a handle or an error; the handle is the world itself.  When
  the first \<^verbatim>\<open>sql.Open\<close> succeeds and the probe query fails, the error of the probe is
  dropped and the function goes on to create the database.
\<close>

definition connectOrCreate :: "dbCon \<Rightarrow> 'u world \<Rightarrow> error option \<times> 'u world" where
  "connectOrCreate con w =
     (let (connected, w1) =
            (case sql_Open con of
               None \<Rightarrow> (case exec_select_1 w of
                          (None, w0) \<Rightarrow> (True, w0)
                        | (Some e, w0) \<Rightarrow> (False, w0))
             | Some e \<Rightarrow> (False, w))
      in if connected then (None, w1)
         else (let root = con\<lparr>dbname := ''postgres''\<rparr>
               in case sql_Open root of
                    Some e \<Rightarrow>
                      (Some (ConnectRootFailed (dbCon_string root) (dbCon_string con) e), w1)
                  | None \<Rightarrow>
                      (case exec_create_database w1 of
                         (Some e, w2) \<Rightarrow> (Some (CreateDatabaseFailed (dbCon_string con) e), w2)
                       | (None, w2) \<Rightarrow>
                           (case sql_Open con of
                              Some e \<Rightarrow> (Some (ConnectNewFailed (dbCon_string con) e), w2)
                            | None \<Rightarrow> (None, w2)))))"

text \<open>
  \<open>getMigrationsInDB\<close>: \<^verbatim>\<open>SELECT version FROM schema_migrations\<close>, every row scanned into
  a string and collected in a \<^verbatim>\<open>map[string]bool\<close>, here the set of its keys.
\<close>

definition getMigrationsInDB :: "'u world \<Rightarrow> (db_error + string set) \<times> 'u world" where
  "getMigrationsInDB w =
     (let (failed, w1) = driver_call w
      in if failed then (Inl ConnectionFailed, w1)
         else (case schema_migrations (committed w1) of
                 Absent \<Rightarrow> (Inl NoSuchTable, w1)
               | Legacy rows \<Rightarrow> (Inr (set (map FormatInt rows)), w1)
               | Current rows \<Rightarrow> (Inr (set rows), w1)))"

text \<open>
  \<open>runMigration\<close> applies one file in a transaction of its own.  The line it prints
  names the migration before its SQL runs.
\<close>

definition runMigration :: "'u env \<Rightarrow> string \<Rightarrow> 'u world \<Rightarrow> error option \<times> 'u world" where
  "runMigration env sqlFile w =
     (case readFile env sqlFile of
        None \<Rightarrow> (Some (ReadFileFailed sqlFile), w)
      | Some sql \<Rightarrow>
          (case Begin w of
             (Inl e, w1) \<Rightarrow> (Some (DriverError e), w1)
           | (Inr tx, w1) \<Rightarrow>
               (case migrationNameFromFile sqlFile of
                  None \<Rightarrow> (Some Panic, w1)
                | Some migname \<Rightarrow>
                    (let w2 = w1\<lparr>stdout := stdout w1 @ [''Running migration '' @ migname]\<rparr>
                     in case tx_exec_sql env sql tx w2 of
                          (Inl e, w3) \<Rightarrow> (Some (DriverError e), w3)
                        | (Inr tx1, w3) \<Rightarrow>
                            (case tx_insert_version migname tx1 w3 of
                               (Inl e, w4) \<Rightarrow> (Some (DriverError e), w4)
                             | (Inr tx2, w4) \<Rightarrow>
                                 (case Commit tx2 w4 of
                                    (Some e, w5) \<Rightarrow> (Some (DriverError e), w5)
                                  | (None, w5) \<Rightarrow> (None, w5)))))))"

fun runLegacyMigrations ::
  "'u env \<Rightarrow> string list \<Rightarrow> 'u world \<Rightarrow> error option \<times> 'u world" where
  "runLegacyMigrations env [] w = (None, w)"
| "runLegacyMigrations env (file # files) w =
     (case legacyMigrationVersion file of
        None \<Rightarrow> (Some Panic, w)
      | Some (v, isLegacy) \<Rightarrow>
          if isLegacy
          then (case runMigration env file w of
                  (Some e, w1) \<Rightarrow> (Some e, w1)
                | (None, w1) \<Rightarrow> runLegacyMigrations env files w1)
          else runLegacyMigrations env files w)"

text \<open>The loop of \<open>switchoverFromAlbion\<close> that records the legacy files inside the transaction.\<close>

fun switchoverFromAlbion_inserts ::
  "string list \<Rightarrow> 'u dbstate \<Rightarrow> 'u world \<Rightarrow> (error + 'u dbstate) \<times> 'u world" where
  "switchoverFromAlbion_inserts [] tx w = (Inr tx, w)"
| "switchoverFromAlbion_inserts (file # files) tx w =
     (case legacyMigrationVersion file of
        None \<Rightarrow> (Inl Panic, w)
      | Some (v, isLegacy) \<Rightarrow>
          if isLegacy
          then (case migrationNameFromFile file of
                  None \<Rightarrow> (Inl Panic, w)
                | Some name \<Rightarrow>
                    (case tx_insert_version name tx w of
                       (Inl e, w1) \<Rightarrow> (Inl (DriverError e), w1)
                     | (Inr tx1, w1) \<Rightarrow> switchoverFromAlbion_inserts files tx1 w1))
          else switchoverFromAlbion_inserts files tx w)"

definition switchoverFromAlbion :: "string list \<Rightarrow> 'u world \<Rightarrow> error option \<times> 'u world" where
  "switchoverFromAlbion sqlFiles w =
     (case query_max_version w of
        (Inl e, w1) \<Rightarrow> (Some (ReadMaxFailed e), w1)
      | (Inr maxDB, w1) \<Rightarrow>
          (case maxLegacyMigrationVersion sqlFiles of
             None \<Rightarrow> (Some Panic, w1)
           | Some maxAvailable \<Rightarrow>
               if maxDB \<noteq> maxAvailable then (Some (VersionMismatch maxAvailable maxDB), w1)
               else (case Begin w1 of
                       (Inl e, w2) \<Rightarrow> (Some (DriverError e), w2)
                     | (Inr tx, w2) \<Rightarrow>
                         (case tx_drop_create tx w2 of
                            (Inl e, w3) \<Rightarrow> (Some (DriverError e), w3)
                          | (Inr tx1, w3) \<Rightarrow>
                              (case switchoverFromAlbion_inserts sqlFiles tx1 w3 of
                                 (Inl e, w4) \<Rightarrow> (Some e, w4)
                               | (Inr tx2, w4) \<Rightarrow>
                                   (case Commit tx2 w4 of
                                      (Some e, w5) \<Rightarrow> (Some (DriverError e), w5)
                                    | (None, w5) \<Rightarrow> (None, w5)))))))"

text \<open>
  \<open>bootstrap\<close> reads the column type and initialises a fresh database, leaves a database
  of this system alone, or takes an Albion database over.  \<^verbatim>\<open>strings.Index(vertype,
  "char") != -1\<close> is \<open>sublist ''char'' vertype\<close>.
\<close>

definition bootstrap ::
  "'u env \<Rightarrow> string \<Rightarrow> string list \<Rightarrow> 'u world \<Rightarrow> error option \<times> 'u world" where
  "bootstrap env dbName sqlFiles w =
     (case query_data_type w of
        (Inl e, w1) \<Rightarrow>
          if e = ErrNoRows
          then (case exec_create_table w1 of
                  (Some e1, w2) \<Rightarrow> (Some (DriverError e1), w2)
                | (None, w2) \<Rightarrow> runLegacyMigrations env sqlFiles w2)
          else (Some (ReadDatatypeFailed e), w1)
      | (Inr vertype, w1) \<Rightarrow>
          if sublist ''char'' vertype then (None, w1)
          else (let w2 = w1\<lparr>stdout := stdout w1 @
                            [''Switching '' @ dbName @ '' over from Albion migration system'']\<rparr>
                in switchoverFromAlbion sqlFiles w2))"

text \<open>The loop of \<open>runMigrations\<close> over the files, with its counter \<open>nrun\<close>.\<close>

fun runMigrations_loop ::
  "'u env \<Rightarrow> string set \<Rightarrow> string list \<Rightarrow> nat \<Rightarrow> 'u world \<Rightarrow> (error + nat) \<times> 'u world" where
  "runMigrations_loop env existing [] nrun w = (Inr nrun, w)"
| "runMigrations_loop env existing (file # files) nrun w =
     (case migrationNameFromFile file of
        None \<Rightarrow> (Inl Panic, w)
      | Some migname \<Rightarrow>
          if migname \<notin> existing
          then (case runMigration env file w of
                  (Some e, w1) \<Rightarrow> (Inl e, w1)
                | (None, w1) \<Rightarrow> runMigrations_loop env existing files (nrun + 1) w1)
          else runMigrations_loop env existing files nrun w)"

text \<open>\<open>runMigrations\<close>, from the descriptor string to the last file.\<close>

definition runMigrations ::
  "'u env \<Rightarrow> string \<Rightarrow> string list \<Rightarrow> 'u world \<Rightarrow> error option \<times> 'u world" where
  "runMigrations env dbStr sqlFiles w =
     (case parseDBConStr dbStr of
        (con, Some e) \<Rightarrow> (Some e, w)
      | (con, None) \<Rightarrow>
          (case connectOrCreate con w of
             (Some e, w0) \<Rightarrow> (Some e, w0)
           | (None, w0) \<Rightarrow>
               (case bootstrap env (dbname con) sqlFiles w0 of
                  (Some e, w1) \<Rightarrow> (Some e, w1)
                | (None, w1) \<Rightarrow>
                    (case getMigrationsInDB w1 of
                       (Inl e, w2) \<Rightarrow> (Some (DriverError e), w2)
                     | (Inr existing, w2) \<Rightarrow>
                         (case runMigrations_loop env existing sqlFiles 0 w2 of
                            (Inl e, w3) \<Rightarrow> (Some e, w3)
                          | (Inr nrun, w3) \<Rightarrow>
                              if nrun = 0
                              then (None, w3\<lparr>stdout := stdout w3 @ [''Database is up to date'']\<rparr>)
                              else (None, w3))))))"

section \<open>Notions used to state the properties\<close>


definition legacy_form :: "string \<Rightarrow> bool" where
  "legacy_form stem =
     (take 5 stem = ''0000-'' \<and> drop 5 stem \<noteq> [] \<and> CHR ''-'' \<notin> set (drop 5 stem))"


text \<open>
  The files of a list that the program treats as legacy, the others, and the legacy
  versions found in a list.
\<close>

definition is_legacy :: "string \<Rightarrow> bool" where
  "is_legacy file =
     (case legacyMigrationVersion file of None \<Rightarrow> False | Some (v, isLegacy) \<Rightarrow> isLegacy)"

definition legacy_files :: "string list \<Rightarrow> string list" where
  "legacy_files files = filter is_legacy files"

definition standard_files :: "string list \<Rightarrow> string list" where
  "standard_files files = filter (\<lambda>file. \<not> is_legacy file) files"

definition legacy_versions :: "string list \<Rightarrow> int list" where
  "legacy_versions files =
     List.map_filter
       (\<lambda>file. case legacyMigrationVersion file of
                 None \<Rightarrow> None
               | Some (v, isLegacy) \<Rightarrow> if isLegacy then Some v else None) files"

text \<open>
  The migration names of a list of files, in order; the files of a list whose names are
  not in a given applied set; the lines \<open>runMigration\<close> prints for a list of names.
\<close>

definition migration_names :: "string list \<Rightarrow> string list" where
  "migration_names files = List.map_filter migrationNameFromFile files"

definition pending_files :: "string set \<Rightarrow> string list \<Rightarrow> string list" where
  "pending_files existing files =
     filter (\<lambda>file. case migrationNameFromFile file of
                       None \<Rightarrow> False
                     | Some name \<Rightarrow> name \<notin> existing) files"

definition run_lines :: "string list \<Rightarrow> string list" where
  "run_lines names = map (\<lambda>name. ''Running migration '' @ name) names"

text \<open>
  Running the SQL of a list of files on the user data, one file after the other, as a
  reference for the order in which a run has executed them.
\<close>

fun exec_files :: "'u env \<Rightarrow> string list \<Rightarrow> 'u \<Rightarrow> 'u option" where
  "exec_files env [] u = Some u"
| "exec_files env (file # files) u =
     (case readFile env file of
        None \<Rightarrow> None
      | Some sql \<Rightarrow>
          (case execSQL env sql u of
             None \<Rightarrow> None
           | Some u1 \<Rightarrow> exec_files env files u1))"

text \<open>
  Whether an error value carries a given file name.  Only the error of a file that
  cannot be read does.
\<close>

fun names_file :: "error \<Rightarrow> string \<Rightarrow> bool" where
  "names_file (ReadFileFailed path) file = (path = file)"
| "names_file e file = False"

text \<open>
  A small installation for the examples.  The user data is the list of the statements
  that ran; one file holds SQL the server rejects, and \<open>demo_env_fixed\<close> is the same
  installation after that file has been corrected.  \<open>demo_world\<close> is an existing database
  with the given table, user data and printed lines, on a connection that stays up.
\<close>

definition demo_env :: "string list env" where
  "demo_env =
     \<lparr>readFile = map_of
        [(''m/0000-0000.sql'', ''create a''),
         (''m/0000-0001.sql'', ''create b''),
         (''m/0000-0001-fix.sql'', ''alter b''),
         (''m/0000-0057.sql'', ''create z''),
         (''m/2018-01-15-a.sql'', ''create c''),
         (''m/2018-02-01-b.sql'', ''syntax error''),
         (''m/2018-03-01-c.sql'', ''create d''),
         (''old/0000-0001.sql'', ''create b'')],
      execSQL = (\<lambda>sql u. if sql = ''syntax error'' then None else Some (u @ [sql]))\<rparr>"

definition demo_world :: "meta_table \<Rightarrow> string list \<Rightarrow> string list \<Rightarrow> string list world" where
  "demo_world table data out =
     \<lparr>created = True, committed = \<lparr>schema_migrations = table, userdata = data\<rparr>,
      faults = [], stdout = out\<rparr>"

definition demo_env_fixed :: "string list env" where
  "demo_env_fixed = demo_env\<lparr>readFile := (readFile demo_env)(''m/2018-02-01-b.sql'' \<mapsto> ''create e'')\<rparr>"

section \<open>Splitting and the connection descriptor\<close>

lemma split_on_not_Nil: "split_on sep s \<noteq> []"
  by (induction s) (auto split: list.splits)

lemma length_split_on: "length (split_on sep s) = Suc (count_list s sep)"
  by (induction s) (auto split: list.splits simp: split_on_not_Nil)

lemma join_split_on: "join_with sep (split_on sep s) = s"
proof (induction s)
  case Nil
  show ?case by simp
next
  case (Cons c cs)
  obtain p ps where ps: "split_on sep cs = p # ps"
    using split_on_not_Nil [of sep cs] by (cases "split_on sep cs") auto
  with Cons show ?case by (cases ps) auto
qed

lemma split_on_no_sep: "p \<in> set (split_on sep s) \<Longrightarrow> sep \<notin> set p"
  by (induction s arbitrary: p) (auto split: list.splits if_splits)

lemma list6: "length xs = 6 \<Longrightarrow> xs = [xs ! 0, xs ! 1, xs ! 2, xs ! 3, xs ! 4, xs ! 5]"
  by (auto simp: list_eq_iff_nth_eq less_Suc_eq numeral_eq_Suc nth_Cons')

lemma hd_split_on: "hd (split_on sep s) = split_on sep s ! 0"
  using split_on_not_Nil [of sep s] by (simp add: hd_conv_nth)

lemma parse_ok_iff:
  "snd (parseDBConStr s) = None \<longleftrightarrow>
     length (split_on CHR '':'' s) = 6 \<and> hd (split_on CHR '':'' s) = ''postgres''"
  by (simp add: parseDBConStr_def Let_def hd_split_on)

lemma parse_fields:
  assumes "snd (parseDBConStr s) = None"
  shows "split_on CHR '':'' s =
    [driver (fst (parseDBConStr s)), host (fst (parseDBConStr s)), port (fst (parseDBConStr s)),
     dbname (fst (parseDBConStr s)), user (fst (parseDBConStr s)), password (fst (parseDBConStr s))]
    \<and> driver (fst (parseDBConStr s)) = ''postgres''"
proof -
  from assms have len: "length (split_on CHR '':'' s) = 6"
    by (simp add: parse_ok_iff)
  obtain a b c d e f where parts: "split_on CHR '':'' s = [a, b, c, d, e, f]"
    using list6 [OF len] by blast
  from assms show ?thesis
    by (simp add: parseDBConStr_def parts Let_def split: if_splits)
qed



lemma runMigrations_parse_error:
  "snd (parseDBConStr s) \<noteq> None \<Longrightarrow> runMigrations env s sqlFiles w = (snd (parseDBConStr s), w)"
  by (cases "parseDBConStr s") (auto simp: runMigrations_def)

section \<open>File names\<close>



lemma split_on_absent: "sep \<notin> set s \<Longrightarrow> split_on sep s = [s]"
  by (induction s) auto

lemma split_on_append_sep:
  "sep \<notin> set a \<Longrightarrow> split_on sep (a @ sep # b) = a # split_on sep b"
  by (induction a) (auto split: list.splits)

lemma two_parts_iff:
  "(length (split_on sep s) = 2 \<and> split_on sep s ! 0 = a \<and> split_on sep s ! 1 = b) \<longleftrightarrow>
   (s = a @ sep # b \<and> sep \<notin> set a \<and> sep \<notin> set b)"
proof
  assume L: "length (split_on sep s) = 2 \<and> split_on sep s ! 0 = a \<and> split_on sep s ! 1 = b"
  then have parts: "split_on sep s = [a, b]"
    by (auto simp: list_eq_iff_nth_eq less_Suc_eq numeral_2_eq_2)
  have "s = join_with sep (split_on sep s)" by (simp add: join_split_on)
  then have "s = a @ sep # b" by (simp add: parts)
  moreover have "sep \<notin> set a" "sep \<notin> set b"
    using split_on_no_sep [of a sep s] split_on_no_sep [of b sep s] by (simp_all add: parts)
  ultimately show "s = a @ sep # b \<and> sep \<notin> set a \<and> sep \<notin> set b" by simp
next
  assume "s = a @ sep # b \<and> sep \<notin> set a \<and> sep \<notin> set b"
  then show "length (split_on sep s) = 2 \<and> split_on sep s ! 0 = a \<and> split_on sep s ! 1 = b"
    by (simp add: split_on_append_sep split_on_absent)
qed

lemma legacy_test_iff:
  "(\<not> (length (split_on CHR ''-'' stem) \<noteq> 2 \<or> split_on CHR ''-'' stem ! 0 \<noteq> ''0000''
        \<or> length (split_on CHR ''-'' stem ! 1) = 0)) \<longleftrightarrow> legacy_form stem"
proof
  assume A: "\<not> (length (split_on CHR ''-'' stem) \<noteq> 2 \<or> split_on CHR ''-'' stem ! 0 \<noteq> ''0000''
        \<or> length (split_on CHR ''-'' stem ! 1) = 0)"
  define b where "b = split_on CHR ''-'' stem ! 1"
  from A have ne: "b \<noteq> []" by (simp add: b_def)
  from A have "length (split_on CHR ''-'' stem) = 2 \<and> split_on CHR ''-'' stem ! 0 = ''0000''
      \<and> split_on CHR ''-'' stem ! 1 = b"
    by (simp add: b_def)
  then have "stem = ''0000'' @ CHR ''-'' # b \<and> CHR ''-'' \<notin> set ''0000'' \<and> CHR ''-'' \<notin> set b"
    using two_parts_iff [of "CHR ''-''" stem "''0000''" b] by blast
  with ne show "legacy_form stem"
    by (simp add: legacy_form_def)
next
  assume L: "legacy_form stem"
  have "stem = take 5 stem @ drop 5 stem" by simp
  with L have "stem = ''0000'' @ CHR ''-'' # drop 5 stem" by (simp add: legacy_form_def)
  moreover from L have "CHR ''-'' \<notin> set (drop 5 stem)" by (simp add: legacy_form_def)
  ultimately have "stem = ''0000'' @ CHR ''-'' # drop 5 stem \<and> CHR ''-'' \<notin> set ''0000''
      \<and> CHR ''-'' \<notin> set (drop 5 stem)"
    by simp
  then have "length (split_on CHR ''-'' stem) = 2 \<and> split_on CHR ''-'' stem ! 0 = ''0000''
      \<and> split_on CHR ''-'' stem ! 1 = drop 5 stem"
    using two_parts_iff [of "CHR ''-''" stem "''0000''" "drop 5 stem"] by blast
  with L show "\<not> (length (split_on CHR ''-'' stem) \<noteq> 2 \<or> split_on CHR ''-'' stem ! 0 \<noteq> ''0000''
        \<or> length (split_on CHR ''-'' stem ! 1) = 0)"
    by (simp add: legacy_form_def)
qed











section \<open>The driver calls\<close>

lemma driver_call_props:
  "driver_call w = (failed, w1) \<Longrightarrow>
     committed w1 = committed w \<and> stdout w1 = stdout w \<and> faults w1 = tl (faults w)
     \<and> created w1 = created w \<and> (\<not> failed \<longrightarrow> created w)
     \<and> (faults w = [] \<longrightarrow> created w \<longrightarrow> \<not> failed \<and> w1 = w)"
  by (auto simp: driver_call_def split: list.splits)

lemma driver_call_healthy: "faults w = [] \<Longrightarrow> created w \<Longrightarrow> driver_call w = (False, w)"
  by (simp add: driver_call_def)

lemma admin_call_props:
  "admin_call w = (failed, w1) \<Longrightarrow>
     committed w1 = committed w \<and> stdout w1 = stdout w \<and> faults w1 = tl (faults w)
     \<and> created w1 = created w"
  by (auto simp: admin_call_def split: list.splits)

lemma Begin_cases:
  assumes "Begin w = (r, w1)"
  shows "committed w1 = committed w \<and> stdout w1 = stdout w \<and> faults w1 = tl (faults w)
     \<and> created w1 = created w
     \<and> (r = Inl ConnectionFailed \<or> r = Inr (committed w))"
  using assms by (cases "driver_call w") (auto simp: Begin_def split: if_splits dest: driver_call_props)

lemma Commit_cases:
  assumes "Commit tx w = (r, w1)"
  shows "stdout w1 = stdout w \<and> faults w1 = tl (faults w) \<and> created w1 = created w
     \<and> ((r = Some ConnectionFailed \<and> committed w1 = committed w) \<or> (r = None \<and> committed w1 = tx))"
  using assms by (cases "driver_call w") (auto simp: Commit_def split: if_splits dest: driver_call_props)

lemma tx_exec_sql_cases:
  assumes "tx_exec_sql env sql tx w = (r, w1)"
  shows "committed w1 = committed w \<and> stdout w1 = stdout w \<and> faults w1 = tl (faults w)
     \<and> created w1 = created w
     \<and> (r = Inl ConnectionFailed \<or> r = Inl StatementFailed
         \<or> (\<exists>u. execSQL env sql (userdata tx) = Some u \<and> r = Inr (tx\<lparr>userdata := u\<rparr>)))"
  using assms by (cases "driver_call w")
    (auto simp: tx_exec_sql_def split: if_splits option.splits dest: driver_call_props)

lemma tx_insert_version_cases:
  assumes "tx_insert_version name tx w = (r, w1)"
  shows "committed w1 = committed w \<and> stdout w1 = stdout w \<and> faults w1 = tl (faults w)
     \<and> created w1 = created w
     \<and> ((\<exists>e. r = Inl e)
         \<or> (\<exists>rows. schema_migrations tx = Current rows \<and> name \<notin> set rows
               \<and> r = Inr (tx\<lparr>schema_migrations := Current (rows @ [name])\<rparr>)))"
  using assms by (cases "driver_call w")
    (auto simp: tx_insert_version_def split: if_splits meta_table.splits dest: driver_call_props)

lemma runMigration_failure:
  assumes "runMigration env f w = (Some e, w')"
  shows "committed w' = committed w \<and> created w' = created w"
  using assms unfolding runMigration_def
  by (auto split: option.splits prod.splits sum.splits simp: Let_def
      dest!: Begin_cases tx_exec_sql_cases tx_insert_version_cases Commit_cases)

lemma runMigration_success:
  assumes "runMigration env f w = (None, w')"
  shows "\<exists>rows sql name u. schema_migrations (committed w) = Current rows
      \<and> migrationNameFromFile f = Some name \<and> name \<notin> set rows
      \<and> readFile env f = Some sql \<and> execSQL env sql (userdata (committed w)) = Some u
      \<and> committed w' = \<lparr>schema_migrations = Current (rows @ [name]), userdata = u\<rparr>
      \<and> stdout w' = stdout w @ [''Running migration '' @ name]
      \<and> created w' = created w"
  using assms unfolding runMigration_def
  by (auto split: option.splits prod.splits sum.splits simp: Let_def
      dest!: Begin_cases tx_exec_sql_cases tx_insert_version_cases Commit_cases)

section \<open>Applying migrations\<close>

lemma migration_names_Nil [simp]: "migration_names [] = []"
  by (simp add: migration_names_def map_filter_simps)

lemma migration_names_Cons:
  "migration_names (f # fs) =
     (case migrationNameFromFile f of None \<Rightarrow> migration_names fs
      | Some n \<Rightarrow> n # migration_names fs)"
  by (simp add: migration_names_def map_filter_simps split: option.splits)

lemma migration_names_append:
  "migration_names (xs @ ys) = migration_names xs @ migration_names ys"
  by (simp add: migration_names_def map_filter_def)

lemma exec_files_append:
  "exec_files env (xs @ ys) u =
     (case exec_files env xs u of None \<Rightarrow> None | Some u1 \<Rightarrow> exec_files env ys u1)"
  by (induction xs arbitrary: u) (auto split: option.splits)

lemma runMigration_error_kind:
  assumes "runMigration env f w = (Some e, w')"
  shows "e = ReadFileFailed f \<or> (\<exists>d. e = DriverError d)
           \<or> (e = Panic \<and> migrationNameFromFile f = None)"
  using assms unfolding runMigration_def
  by (auto split: option.splits prod.splits sum.splits simp: Let_def)

lemma runMigration_healthy:
  assumes "faults w = []" "created w" "schema_migrations (committed w) = Current rows"
    "migrationNameFromFile f = Some name" "name \<notin> set rows"
    "readFile env f = Some sql" "execSQL env sql (userdata (committed w)) = Some u"
  shows "runMigration env f w =
     (None, w\<lparr>committed := \<lparr>schema_migrations = Current (rows @ [name]), userdata = u\<rparr>,
              stdout := stdout w @ [''Running migration '' @ name]\<rparr>)"
  using assms
  by (simp add: runMigration_def Begin_def tx_exec_sql_def tx_insert_version_def Commit_def
      driver_call_healthy Let_def)

lemma loop_append:
  "runMigrations_loop env ex (xs @ ys) n w =
     (case runMigrations_loop env ex xs n w of
        (Inl e, w1) \<Rightarrow> (Inl e, w1)
      | (Inr n1, w1) \<Rightarrow> runMigrations_loop env ex ys n1 w1)"
  by (induction xs arbitrary: n w) (auto split: option.splits prod.splits sum.splits)

lemma loop_skip_all:
  "\<forall>f\<in>set files. \<exists>name. migrationNameFromFile f = Some name \<and> name \<in> ex \<Longrightarrow>
   runMigrations_loop env ex files n w = (Inr n, w)"
  by (induction files) auto

lemma pending_files_Cons:
  "pending_files ex (f # fs) =
     (case migrationNameFromFile f of
        None \<Rightarrow> pending_files ex fs
      | Some name \<Rightarrow> if name \<notin> ex then f # pending_files ex fs else pending_files ex fs)"
  by (simp add: pending_files_def split: option.splits)

lemma loop_success:
  assumes "runMigrations_loop env ex files n w = (Inr n', w')"
    and "schema_migrations (committed w) = Current rows"
  shows "schema_migrations (committed w') = Current (rows @ migration_names (pending_files ex files))
      \<and> exec_files env (pending_files ex files) (userdata (committed w)) = Some (userdata (committed w'))
      \<and> stdout w' = stdout w @ run_lines (migration_names (pending_files ex files))
      \<and> n' = n + length (pending_files ex files)
      \<and> (\<forall>f\<in>set files. migrationNameFromFile f \<noteq> None)
      \<and> distinct (migration_names (pending_files ex files))
      \<and> set rows \<inter> set (migration_names (pending_files ex files)) = {}"
  using assms
proof (induction files arbitrary: n w rows)
  case Nil
  then show ?case by (simp add: pending_files_def run_lines_def)
next
  case (Cons f fs)
  from Cons.prems(1) obtain name where name: "migrationNameFromFile f = Some name"
    by (auto split: option.splits)
  show ?case
  proof (cases "name \<in> ex")
    case True
    with Cons.prems name have "runMigrations_loop env ex fs n w = (Inr n', w')"
      by simp
    from Cons.IH [OF this Cons.prems(2)] True name show ?thesis
      by (simp add: pending_files_Cons)
  next
    case False
    with Cons.prems(1) name obtain w1 where
      step: "runMigration env f w = (None, w1)" and
      rest: "runMigrations_loop env ex fs (n + 1) w1 = (Inr n', w')"
      by (auto split: option.splits prod.splits)
    from runMigration_success [OF step] Cons.prems(2) name obtain sql u where
      fresh: "name \<notin> set rows" and sql: "readFile env f = Some sql"
      and u: "execSQL env sql (userdata (committed w)) = Some u"
      and c1: "committed w1 = \<lparr>schema_migrations = Current (rows @ [name]), userdata = u\<rparr>"
      and o1: "stdout w1 = stdout w @ [''Running migration '' @ name]"
      by auto
    from c1 have s1: "schema_migrations (committed w1) = Current (rows @ [name])"
      and u1: "userdata (committed w1) = u"
      by simp_all
    from Cons.IH [OF rest s1] False name fresh sql u u1 o1 show ?thesis
      by (auto simp: pending_files_Cons migration_names_Cons run_lines_def)
  qed
qed

section \<open>Legacy files and the switchover\<close>

lemma char_in_varchar: "sublist ''char'' ''character varying''"
  by code_simp

lemma char_not_in_integer: "\<not> sublist ''char'' ''integer''"
  by code_simp

lemma has_name_iff: "migrationNameFromFile f \<noteq> None \<longleftrightarrow> legacyMigrationVersion f \<noteq> None"
  by (auto simp: migrationNameFromFile_def legacyMigrationVersion_def Let_def split: option.splits)

lemma legacy_files_Cons:
  "legacy_files (f # fs) = (if is_legacy f then f # legacy_files fs else legacy_files fs)"
  by (simp add: legacy_files_def)

lemma runLegacyMigrations_success:
  assumes "runLegacyMigrations env files w = (None, w')"
    and "schema_migrations (committed w) = Current rows"
  shows "schema_migrations (committed w') = Current (rows @ migration_names (legacy_files files))
      \<and> exec_files env (legacy_files files) (userdata (committed w)) = Some (userdata (committed w'))
      \<and> stdout w' = stdout w @ run_lines (migration_names (legacy_files files))
      \<and> (\<forall>f\<in>set files. migrationNameFromFile f \<noteq> None)"
  using assms
proof (induction files arbitrary: w rows)
  case Nil
  then show ?case by (simp add: legacy_files_def run_lines_def)
next
  case (Cons f fs)
  from Cons.prems(1) obtain v isLegacy where lv: "legacyMigrationVersion f = Some (v, isLegacy)"
    by (auto split: option.splits)
  then have named: "migrationNameFromFile f \<noteq> None"
    using has_name_iff [of f] by simp
  show ?case
  proof (cases isLegacy)
    case False
    with Cons.prems lv have "runLegacyMigrations env fs w = (None, w')"
      by simp
    from Cons.IH [OF this Cons.prems(2)] False lv named show ?thesis
      by (simp add: legacy_files_Cons is_legacy_def)
  next
    case True
    with Cons.prems(1) lv obtain w1 where
      step: "runMigration env f w = (None, w1)" and
      rest: "runLegacyMigrations env fs w1 = (None, w')"
      by (auto split: option.splits prod.splits)
    from runMigration_success [OF step] Cons.prems(2) obtain name sql u where
      name: "migrationNameFromFile f = Some name"
      and sql: "readFile env f = Some sql"
      and u: "execSQL env sql (userdata (committed w)) = Some u"
      and c1: "committed w1 = \<lparr>schema_migrations = Current (rows @ [name]), userdata = u\<rparr>"
      and o1: "stdout w1 = stdout w @ [''Running migration '' @ name]"
      by auto
    from c1 have s1: "schema_migrations (committed w1) = Current (rows @ [name])"
      and u1: "userdata (committed w1) = u"
      by simp_all
    from Cons.IH [OF rest s1] True lv name sql u u1 o1 show ?thesis
      by (auto simp: legacy_files_Cons is_legacy_def migration_names_Cons run_lines_def)
  qed
qed

lemma inserts_frame:
  "switchoverFromAlbion_inserts files tx w = (r, w') \<Longrightarrow>
     committed w' = committed w \<and> stdout w' = stdout w \<and> created w' = created w"
proof (induction files arbitrary: tx w)
  case Nil
  then show ?case by simp
next
  case (Cons f fs)
  then show ?case
    by (auto split: option.splits prod.splits sum.splits if_splits
        dest!: tx_insert_version_cases)
qed

lemma inserts_success:
  assumes "switchoverFromAlbion_inserts files tx w = (Inr tx', w')"
    and "schema_migrations tx = Current rows"
  shows "tx' = tx\<lparr>schema_migrations := Current (rows @ migration_names (legacy_files files))\<rparr>
     \<and> distinct (migration_names (legacy_files files))
     \<and> set rows \<inter> set (migration_names (legacy_files files)) = {}
     \<and> length (migration_names (legacy_files files)) = length (legacy_files files)"
  using assms
proof (induction files arbitrary: tx w rows)
  case Nil
  then show ?case by (simp add: legacy_files_def)
next
  case (Cons f fs)
  from Cons.prems(1) obtain v isLegacy where lv: "legacyMigrationVersion f = Some (v, isLegacy)"
    by (auto split: option.splits)
  show ?case
  proof (cases isLegacy)
    case False
    with Cons.prems lv have "switchoverFromAlbion_inserts fs tx w = (Inr tx', w')"
      by simp
    from Cons.IH [OF this Cons.prems(2)] False lv show ?thesis
      by (simp add: legacy_files_Cons is_legacy_def)
  next
    case True
    with Cons.prems(1) lv obtain name tx1 w1 where
      name: "migrationNameFromFile f = Some name" and
      ins: "tx_insert_version name tx w = (Inr tx1, w1)" and
      rest: "switchoverFromAlbion_inserts fs tx1 w1 = (Inr tx', w')"
      by (auto split: option.splits prod.splits sum.splits)
    from tx_insert_version_cases [OF ins] Cons.prems(2) have
      fresh: "name \<notin> set rows" and
      tx1: "tx1 = tx\<lparr>schema_migrations := Current (rows @ [name])\<rparr>"
      by auto
    then have s1: "schema_migrations tx1 = Current (rows @ [name])"
      by simp
    from Cons.IH [OF rest s1] True lv name fresh tx1 show ?thesis
      by (auto simp: legacy_files_Cons is_legacy_def migration_names_Cons)
  qed
qed


lemma query_max_version_Inr:
  assumes "query_max_version w = (Inr m, w1)"
  shows "(\<exists>rows. schema_migrations (committed w) = Legacy rows \<and> rows \<noteq> [] \<and> m = Max (set rows))
     \<and> committed w1 = committed w \<and> stdout w1 = stdout w \<and> faults w1 = tl (faults w)
     \<and> created w1"
proof -
  obtain failed w0 where dc: "driver_call w = (failed, w0)"
    by (cases "driver_call w")
  note p = driver_call_props [OF dc]
  from assms dc have ok: "\<not> failed" and w10: "w1 = w0"
    by (auto simp: query_max_version_def split: if_splits meta_table.splits list.splits)
  from assms dc ok obtain v vs where rows: "schema_migrations (committed w0) = Legacy (v # vs)"
    and m: "m = fold max vs v"
    by (auto simp: query_max_version_def split: if_splits meta_table.splits list.splits)
  have "m = Max (set (v # vs))"
    by (simp only: m Max.set_eq_fold)
  with rows p w10 ok show ?thesis
    by auto
qed

lemma legacy_versions_Cons:
  "legacy_versions (f # fs) =
     (case legacyMigrationVersion f of
        None \<Rightarrow> legacy_versions fs
      | Some (v, isLegacy) \<Rightarrow> if isLegacy then v # legacy_versions fs else legacy_versions fs)"
  by (simp add: legacy_versions_def map_filter_simps split: option.splits)

lemma maxLegacy_from_Max:
  "maxLegacyMigrationVersion_from m files = Some r \<Longrightarrow>
     r = Max (insert m (set (legacy_versions files)))"
proof (induction files arbitrary: m)
  case Nil
  then show ?case by (simp add: legacy_versions_def map_filter_simps)
next
  case (Cons f fs)
  from Cons.prems obtain v isLegacy where lv: "legacyMigrationVersion f = Some (v, isLegacy)"
    by (auto split: option.splits)
  show ?case
  proof (cases "isLegacy \<and> v > m")
    case True
    with Cons.prems lv have "maxLegacyMigrationVersion_from v fs = Some r" by simp
    then have "r = Max (insert v (set (legacy_versions fs)))" by (rule Cons.IH)
    moreover have "Max (insert m (insert v (set (legacy_versions fs)))) =
        max m (Max (insert v (set (legacy_versions fs))))"
      by (rule Max_insert) simp_all
    moreover have "v \<le> Max (insert v (set (legacy_versions fs)))"
      by (rule Max_ge) simp_all
    then have "m \<le> Max (insert v (set (legacy_versions fs)))"
      using True by linarith
    ultimately show ?thesis
      using True lv by (simp add: legacy_versions_Cons max_def)
  next
    case False
    with Cons.prems lv have "maxLegacyMigrationVersion_from m fs = Some r" by simp
    then have r: "r = Max (insert m (set (legacy_versions fs)))" by (rule Cons.IH)
    show ?thesis
    proof (cases isLegacy)
      case False
      with r lv show ?thesis by (simp add: legacy_versions_Cons)
    next
      case True
      with \<open>\<not> (isLegacy \<and> v > m)\<close> have vm: "v \<le> m" by simp
      have "Max (insert v (insert m (set (legacy_versions fs)))) =
          max v (Max (insert m (set (legacy_versions fs))))"
        by (rule Max_insert) simp_all
      moreover have "m \<le> Max (insert m (set (legacy_versions fs)))"
        by (rule Max_ge) simp_all
      ultimately show ?thesis
        using True lv r vm by (simp add: legacy_versions_Cons max_def insert_commute)
    qed
  qed
qed




lemma tx_drop_create_cases:
  assumes "tx_drop_create tx w = (r, w1)"
  shows "committed w1 = committed w \<and> stdout w1 = stdout w \<and> faults w1 = tl (faults w)
     \<and> created w1 = created w
     \<and> ((\<exists>e. r = Inl e) \<or> r = Inr (tx\<lparr>schema_migrations := Current []\<rparr>))"
  using assms by (cases "driver_call w")
    (auto simp: tx_drop_create_def split: if_splits meta_table.splits dest: driver_call_props)

lemma switchover_outcome:
  assumes q: "query_max_version w = (Inr maxApplied, w1)"
    and m: "maxLegacyMigrationVersion sqlFiles = Some maxApplied"
    and run: "switchoverFromAlbion sqlFiles w = (r, w')"
  shows "((r = None
            \<and> committed w' = \<lparr>schema_migrations = Current (migration_names (legacy_files sqlFiles)),
                               userdata = userdata (committed w)\<rparr>
            \<and> distinct (migration_names (legacy_files sqlFiles))
            \<and> length (migration_names (legacy_files sqlFiles)) = length (legacy_files sqlFiles))
          \<or> (r \<noteq> None \<and> committed w' = committed w))
     \<and> stdout w' = stdout w \<and> created w'"
proof -
  from query_max_version_Inr [OF q] have c1: "committed w1 = committed w" and o1: "stdout w1 = stdout w"
    and cr1: "created w1"
    by simp_all
  obtain rb w2 where b: "Begin w1 = (rb, w2)" by (cases "Begin w1")
  note bp = Begin_cases [OF b]
  show ?thesis
  proof (cases rb)
    case (Inl e)
    with run q m b bp c1 o1 cr1 show ?thesis
      by (auto simp: switchoverFromAlbion_def)
  next
    case (Inr tx)
    with bp c1 have tx: "tx = committed w" by auto
    obtain rd w3 where d: "tx_drop_create tx w2 = (rd, w3)" by (cases "tx_drop_create tx w2")
    note dp = tx_drop_create_cases [OF d]
    show ?thesis
    proof (cases rd)
      case (Inl e)
      with run q m b Inr d dp bp c1 o1 cr1 show ?thesis
        by (auto simp: switchoverFromAlbion_def)
    next
      case tx1: (Inr tx1)
      with dp have tx1_eq: "tx1 = tx\<lparr>schema_migrations := Current []\<rparr>" by auto
      obtain ri w4 where i: "switchoverFromAlbion_inserts sqlFiles tx1 w3 = (ri, w4)"
        by (cases "switchoverFromAlbion_inserts sqlFiles tx1 w3")
      note ip = inserts_frame [OF i]
      show ?thesis
      proof (cases ri)
        case (Inl e)
        with run q m b Inr d tx1 i ip dp bp c1 o1 cr1 show ?thesis
          by (auto simp: switchoverFromAlbion_def)
      next
        case tx2: (Inr tx2)
        from i tx2 have "switchoverFromAlbion_inserts sqlFiles tx1 w3 = (Inr tx2, w4)" by simp
        from inserts_success [OF this, of "[]"] tx1_eq
        have tx2_eq: "tx2 = tx1\<lparr>schema_migrations := Current (migration_names (legacy_files sqlFiles))\<rparr>"
          and dist: "distinct (migration_names (legacy_files sqlFiles))"
          and len: "length (migration_names (legacy_files sqlFiles)) = length (legacy_files sqlFiles)"
          by simp_all
        obtain rc w5 where c: "Commit tx2 w4 = (rc, w5)" by (cases "Commit tx2 w4")
        note cp = Commit_cases [OF c]
        from run q m b Inr d tx1 i tx2 c have res: "r = (case rc of Some e \<Rightarrow> Some (DriverError e) | None \<Rightarrow> None)"
          and w': "w' = w5"
          by (auto simp: switchoverFromAlbion_def split: option.splits)
        from cp ip dp bp c1 o1 cr1 w' have out: "stdout w' = stdout w \<and> created w'" by simp
        from cp consider
            (lost) "rc = Some ConnectionFailed" "committed w5 = committed w4"
          | (installed) "rc = None" "committed w5 = tx2"
          by blast
        then show ?thesis
        proof cases
          case lost
          with res w' ip dp bp c1 out show ?thesis by simp
        next
          case installed
          with res w' tx2_eq tx1_eq tx dist len out show ?thesis by simp
        qed
      qed
    qed
  qed
qed


section \<open>Bootstrap\<close>

lemma set_migration_names:
  "set (migration_names files) = {n. \<exists>f\<in>set files. migrationNameFromFile f = Some n}"
  by (induction files) (auto simp: migration_names_Cons split: option.splits)

lemma query_data_type_eq:
  "query_data_type w =
     (case driver_call w of
        (failed, w1) \<Rightarrow>
          if failed then (Inl ConnectionFailed, w1)
          else (case schema_migrations (committed w) of
                  Absent \<Rightarrow> (Inl ErrNoRows, w1)
                | Legacy rows \<Rightarrow> (Inr ''integer'', w1)
                | Current rows \<Rightarrow> (Inr ''character varying'', w1)))"
  by (cases "driver_call w") (auto simp: query_data_type_def dest: driver_call_props)

lemma bootstrap_Current:
  assumes "schema_migrations (committed w) = Current rows"
  shows "bootstrap env dbName sqlFiles w =
     (case driver_call w of
        (failed, w1) \<Rightarrow>
          if failed then (Some (ReadDatatypeFailed ConnectionFailed), w1) else (None, w1))"
  using assms
  by (cases "driver_call w") (simp add: bootstrap_def query_data_type_eq char_in_varchar)

lemma getMigrationsInDB_Current:
  assumes "schema_migrations (committed w) = Current rows"
  shows "getMigrationsInDB w =
     (case driver_call w of
        (failed, w1) \<Rightarrow>
          if failed then (Inl ConnectionFailed, w1) else (Inr (set rows), w1))"
  using assms
  by (cases "driver_call w") (auto simp: getMigrationsInDB_def dest: driver_call_props)

lemma exec_create_table_cases:
  assumes "exec_create_table w = (r, w1)"
  shows "stdout w1 = stdout w \<and> faults w1 = tl (faults w) \<and> created w1 = created w
     \<and> ((\<exists>e. r = Some e)
         \<or> (r = None \<and> schema_migrations (committed w) = Absent
              \<and> committed w1 = (committed w)\<lparr>schema_migrations := Current []\<rparr>))"
  using assms by (cases "driver_call w")
    (auto simp: exec_create_table_def split: if_splits meta_table.splits dest: driver_call_props)

lemma bootstrap_Absent_success:
  assumes "schema_migrations (committed w) = Absent"
    and "bootstrap env dbName sqlFiles w = (None, w')"
  shows "schema_migrations (committed w') = Current (migration_names (legacy_files sqlFiles))
      \<and> exec_files env (legacy_files sqlFiles) (userdata (committed w)) = Some (userdata (committed w'))
      \<and> (\<forall>f\<in>set sqlFiles. migrationNameFromFile f \<noteq> None)"
proof -
  obtain failed w1 where dc: "driver_call w = (failed, w1)" by (cases "driver_call w")
  note p = driver_call_props [OF dc]
  from assms dc have ok: "\<not> failed"
    by (auto simp: bootstrap_def query_data_type_eq split: if_splits)
  obtain rc w2 where ct: "exec_create_table w1 = (rc, w2)" by (cases "exec_create_table w1")
  note cp = exec_create_table_cases [OF ct]
  from assms dc ok ct have rc: "rc = None" and leg: "runLegacyMigrations env sqlFiles w2 = (None, w')"
    by (auto simp: bootstrap_def query_data_type_eq split: option.splits)
  from cp rc p have c2: "committed w2 = (committed w)\<lparr>schema_migrations := Current []\<rparr>"
    by auto
  then have s2: "schema_migrations (committed w2) = Current []" and u2: "userdata (committed w2) = userdata (committed w)"
    by simp_all
  from runLegacyMigrations_success [OF leg s2] u2 show ?thesis
    by simp
qed

lemma bootstrap_success_Current:
  assumes "bootstrap env dbName sqlFiles w = (None, w')"
  shows "\<exists>rows. schema_migrations (committed w') = Current rows"
proof (cases "schema_migrations (committed w)")
  case Absent
  from bootstrap_Absent_success [OF Absent assms] show ?thesis by blast
next
  case (Current rows)
  obtain failed w1 where dc: "driver_call w = (failed, w1)" by (cases "driver_call w")
  note p = driver_call_props [OF dc]
  from assms dc Current have "w' = w1"
    by (auto simp: bootstrap_Current split: if_splits)
  with p Current show ?thesis by simp
next
  case (Legacy rows)
  obtain failed w1 where dc: "driver_call w = (failed, w1)" by (cases "driver_call w")
  note p = driver_call_props [OF dc]
  define w2 where "w2 = w1\<lparr>stdout := stdout w1 @
      [''Switching '' @ dbName @ '' over from Albion migration system'']\<rparr>"
  from assms dc Legacy have ok: "\<not> failed" and sw: "switchoverFromAlbion sqlFiles w2 = (None, w')"
    by (auto simp: bootstrap_def query_data_type_eq char_not_in_integer w2_def Let_def split: if_splits)
  obtain rq w3 where q: "query_max_version w2 = (rq, w3)" by (cases "query_max_version w2")
  from sw q obtain m where rq: "rq = Inr m" and mx: "maxLegacyMigrationVersion sqlFiles = Some m"
    by (cases rq) (auto simp: switchoverFromAlbion_def split: option.splits if_splits)
  from q rq have "query_max_version w2 = (Inr m, w3)" by simp
  from switchover_outcome [OF this mx sw] show ?thesis by auto
qed

section \<open>Names that differ in case only\<close>

lemma ascii_lower_eq_dash: "ascii_lower c = CHR ''-'' \<longleftrightarrow> c = CHR ''-''"
proof (cases "65 \<le> (of_char c :: nat) \<and> (of_char c :: nat) \<le> 90")
  case True
  then have "ascii_lower c = char_of ((of_char c :: nat) + 32)"
    by (simp add: ascii_lower_def Let_def)
  then have "(of_char (ascii_lower c) :: nat) = ((of_char c :: nat) + 32) mod 256"
    by (simp add: of_char_of)
  with True have "(of_char (ascii_lower c) :: nat) \<noteq> of_char (CHR ''-'')" by simp
  moreover from True have "c \<noteq> CHR ''-''" by auto
  ultimately show ?thesis by auto
next
  case False
  then show ?thesis by (auto simp: ascii_lower_def Let_def)
qed

lemma ascii_lower_eq_zero: "ascii_lower c = CHR ''0'' \<longleftrightarrow> c = CHR ''0''"
proof (cases "65 \<le> (of_char c :: nat) \<and> (of_char c :: nat) \<le> 90")
  case True
  then have "ascii_lower c = char_of ((of_char c :: nat) + 32)"
    by (simp add: ascii_lower_def Let_def)
  then have "(of_char (ascii_lower c) :: nat) = ((of_char c :: nat) + 32) mod 256"
    by (simp add: of_char_of)
  with True have "(of_char (ascii_lower c) :: nat) \<noteq> of_char (CHR ''0'')" by simp
  moreover from True have "c \<noteq> CHR ''0''" by auto
  ultimately show ?thesis by auto
next
  case False
  then show ?thesis by (auto simp: ascii_lower_def Let_def)
qed

lemma ToLower_prefix_eq: "map ascii_lower p = ''0000-'' \<longleftrightarrow> p = ''0000-''"
  by (auto simp: map_eq_Cons_conv ascii_lower_eq_dash ascii_lower_eq_zero)

lemma legacy_form_ToLower: "legacy_form (ToLower s) = legacy_form s"
proof -
  have "CHR ''-'' \<in> ascii_lower ` set (drop 5 s) \<longleftrightarrow> CHR ''-'' \<in> set (drop 5 s)"
    using ascii_lower_eq_dash by (metis image_iff)
  then show ?thesis
    by (simp add: legacy_form_def ToLower_def take_map drop_map ToLower_prefix_eq)
qed

lemma is_legacy_by_name:
  assumes "migrationNameFromFile f = Some name"
  shows "is_legacy f = legacy_form name"
proof -
  from assms obtain s where s: "drop_ext (Base f) = Some s" and name: "name = ToLower s"
    by (auto simp: migrationNameFromFile_def split: option.splits)
  have "is_legacy f = legacy_form s"
    using legacy_test_iff [of s]
    by (auto simp: is_legacy_def legacyMigrationVersion_def s Let_def simp del: length_0_conv)
  then show ?thesis by (simp add: name legacy_form_ToLower)
qed

lemma pending_after_replay:
  assumes "\<forall>f\<in>set files. migrationNameFromFile f \<noteq> None"
  shows "pending_files (set (migration_names (legacy_files files))) files = standard_files files"
  unfolding pending_files_def standard_files_def
proof (rule filter_cong [OF refl])
  fix f assume f: "f \<in> set files"
  with assms obtain name where name: "migrationNameFromFile f = Some name" by auto
  have "name \<in> set (migration_names (legacy_files files)) \<longleftrightarrow> is_legacy f"
  proof
    assume "name \<in> set (migration_names (legacy_files files))"
    then obtain g where "is_legacy g" "migrationNameFromFile g = Some name"
      by (auto simp: set_migration_names legacy_files_def)
    with name show "is_legacy f" by (simp add: is_legacy_by_name)
  next
    assume "is_legacy f"
    with f name show "name \<in> set (migration_names (legacy_files files))"
      by (auto simp: set_migration_names legacy_files_def)
  qed
  with name show "(case migrationNameFromFile f of None \<Rightarrow> False
        | Some name \<Rightarrow> name \<notin> set (migration_names (legacy_files files))) = (\<not> is_legacy f)"
    by simp
qed

lemma set_partition_names:
  "set (migration_names (legacy_files files @ standard_files files)) = set (migration_names files)"
  by (auto simp: set_migration_names legacy_files_def standard_files_def)

section \<open>Connecting\<close>

lemma runMigration_created:
  assumes "runMigration env f w = (r, w')"
  shows "created w' = created w"
proof (cases r)
  case None
  with assms runMigration_success [of env f w w'] show ?thesis by auto
next
  case (Some e)
  with assms runMigration_failure [of env f w e w'] show ?thesis by auto
qed

lemma loop_created:
  "runMigrations_loop env ex files n w = (r, w') \<Longrightarrow> created w' = created w"
proof (induction files arbitrary: n w)
  case Nil
  then show ?case by simp
next
  case (Cons f fs)
  show ?case
  proof (cases "migrationNameFromFile f")
    case None
    with Cons.prems show ?thesis by simp
  next
    case (Some name)
    show ?thesis
    proof (cases "name \<in> ex")
      case True
      with Cons Some show ?thesis by simp
    next
      case False
      obtain r1 w1 where step: "runMigration env f w = (r1, w1)"
        by (cases "runMigration env f w")
      note c1 = runMigration_created [OF step]
      show ?thesis
      proof (cases r1)
        case None
        with Cons.prems Some False step have "runMigrations_loop env ex fs (n + 1) w1 = (r, w')"
          by simp
        with Cons.IH c1 show ?thesis by simp
      next
        case (Some e)
        with Cons.prems \<open>migrationNameFromFile f = Some name\<close> False step c1 show ?thesis
          by simp
      qed
    qed
  qed
qed

lemma runLegacyMigrations_created:
  "runLegacyMigrations env files w = (r, w') \<Longrightarrow> created w' = created w"
proof (induction files arbitrary: w)
  case Nil
  then show ?case by simp
next
  case (Cons f fs)
  show ?case
  proof (cases "legacyMigrationVersion f")
    case None
    with Cons.prems show ?thesis by simp
  next
    case (Some p)
    obtain v isLegacy where p: "p = (v, isLegacy)" by (cases p)
    show ?thesis
    proof (cases isLegacy)
      case False
      with Cons Some p show ?thesis by simp
    next
      case True
      obtain r1 w1 where step: "runMigration env f w = (r1, w1)"
        by (cases "runMigration env f w")
      note c1 = runMigration_created [OF step]
      show ?thesis
      proof (cases r1)
        case None
        with Cons.prems Some p True step have "runLegacyMigrations env fs w1 = (r, w')"
          by simp
        with Cons.IH c1 show ?thesis by simp
      next
        case (Some e)
        with Cons.prems \<open>legacyMigrationVersion f = Some p\<close> p True step c1 show ?thesis
          by simp
      qed
    qed
  qed
qed

lemma bootstrap_success_created:
  assumes "bootstrap env dbName sqlFiles w = (None, w')"
  shows "created w'"
proof -
  obtain failed w1 where dc: "driver_call w = (failed, w1)" by (cases "driver_call w")
  note p = driver_call_props [OF dc]
  from assms dc have ok: "\<not> failed"
    by (auto simp: bootstrap_def query_data_type_eq split: if_splits meta_table.splits)
  with p have c1: "created w1" by simp
  show ?thesis
  proof (cases "schema_migrations (committed w)")
    case Absent
    obtain rc w2 where ct: "exec_create_table w1 = (rc, w2)" by (cases "exec_create_table w1")
    note cp = exec_create_table_cases [OF ct]
    from assms dc ok ct Absent have "runLegacyMigrations env sqlFiles w2 = (None, w')"
      by (auto simp: bootstrap_def query_data_type_eq split: option.splits)
    from runLegacyMigrations_created [OF this] cp c1 show ?thesis by simp
  next
    case (Current rows)
    from assms dc Current have "w' = w1"
      by (auto simp: bootstrap_Current split: if_splits)
    with c1 show ?thesis by simp
  next
    case (Legacy rows)
    define w2 where "w2 = w1\<lparr>stdout := stdout w1 @
        [''Switching '' @ dbName @ '' over from Albion migration system'']\<rparr>"
    from assms dc Legacy ok have sw: "switchoverFromAlbion sqlFiles w2 = (None, w')"
      by (auto simp: bootstrap_def query_data_type_eq char_not_in_integer w2_def Let_def split: if_splits)
    obtain rq w3 where q: "query_max_version w2 = (rq, w3)" by (cases "query_max_version w2")
    from sw q obtain m where rq: "rq = Inr m" and mx: "maxLegacyMigrationVersion sqlFiles = Some m"
      by (cases rq) (auto simp: switchoverFromAlbion_def split: option.splits if_splits)
    from q rq have "query_max_version w2 = (Inr m, w3)" by simp
    from switchover_outcome [OF this mx sw] show ?thesis by simp
  qed
qed

lemma connectOrCreate_success:
  assumes "connectOrCreate con w = (None, w0)"
  shows "created w0 \<and> stdout w0 = stdout w
     \<and> committed w0 = (if created w then committed w
                       else (committed w)\<lparr>schema_migrations := Absent\<rparr>)"
proof -
  obtain failed w1 where dc: "driver_call w = (failed, w1)" by (cases "driver_call w")
  note p = driver_call_props [OF dc]
  obtain failed2 w2 where ac: "admin_call w1 = (failed2, w2)" by (cases "admin_call w1")
  note q = admin_call_props [OF ac]
  from assms have drv: "driver con = ''postgres''"
    by (auto simp: connectOrCreate_def sql_Open_def split: if_splits)
  show ?thesis
  proof (cases failed)
    case False
    with assms dc drv have "w0 = w1"
      by (simp add: connectOrCreate_def sql_Open_def exec_select_1_def)
    with p False show ?thesis by simp
  next
    case True
    with assms dc ac drv have "\<not> failed2" "\<not> created w2"
      and w0: "w0 = w2\<lparr>created := True, committed := (committed w2)\<lparr>schema_migrations := Absent\<rparr>\<rparr>"
      by (auto simp: connectOrCreate_def sql_Open_def exec_select_1_def exec_create_database_def
          split: if_splits)
    with p q show ?thesis by simp
  qed
qed

lemma connectOrCreate_healthy:
  "faults w = [] \<Longrightarrow> created w \<Longrightarrow> driver con = ''postgres'' \<Longrightarrow>
     connectOrCreate con w = (None, w)"
  by (simp add: connectOrCreate_def sql_Open_def exec_select_1_def driver_call_healthy)

lemma parse_driver: "parseDBConStr dbStr = (con, None) \<Longrightarrow> driver con = ''postgres''"
  using parse_fields [of dbStr] by simp

section \<open>Runs on a database of this system\<close>

lemma runMigrations_connect_failed:
  assumes "parseDBConStr dbStr = (con, None)"
    and "connectOrCreate con w = (Some e, w0)"
  shows "runMigrations env dbStr files w = (Some e, w0)"
  using assms by (simp add: runMigrations_def)

lemma runMigrations_Current:
  assumes "parseDBConStr dbStr = (con, None)"
    and "connectOrCreate con w0 = (None, w)"
    and "schema_migrations (committed w) = Current rows"
  shows "runMigrations env dbStr files w0 =
     (case driver_call w of
        (failed, wa) \<Rightarrow>
          if failed then (Some (ReadDatatypeFailed ConnectionFailed), wa)
          else (case driver_call wa of
                  (failed2, wb) \<Rightarrow>
                    if failed2 then (Some (DriverError ConnectionFailed), wb)
                    else (case runMigrations_loop env (set rows) files 0 wb of
                            (Inl e, w3) \<Rightarrow> (Some e, w3)
                          | (Inr nrun, w3) \<Rightarrow>
                              if nrun = 0
                              then (None, w3\<lparr>stdout := stdout w3 @ [''Database is up to date'']\<rparr>)
                              else (None, w3))))"
proof -
  obtain failed wa where dc: "driver_call w = (failed, wa)" by (cases "driver_call w")
  note p = driver_call_props [OF dc]
  from p assms(3) have sa: "schema_migrations (committed wa) = Current rows" by simp
  obtain failed2 wb where dc2: "driver_call wa = (failed2, wb)" by (cases "driver_call wa")
  show ?thesis
    using assms dc dc2 sa
    by (simp add: runMigrations_def bootstrap_Current getMigrationsInDB_Current
        split: prod.splits sum.splits)
qed

lemma loop_success_applied:
  assumes "runMigrations_loop env (set rows) files n w = (Inr n', w')"
    and "schema_migrations (committed w) = Current rows"
  shows "\<exists>rows'. schema_migrations (committed w') = Current rows' \<and> set rows \<subseteq> set rows'
      \<and> (\<forall>f\<in>set files. \<exists>name. migrationNameFromFile f = Some name \<and> name \<in> set rows')
      \<and> (\<forall>f\<in>set files. \<forall>name. migrationNameFromFile f = Some name \<longrightarrow> name \<notin> set rows \<longrightarrow> n' \<noteq> n)"
proof -
  define rows' where "rows' = rows @ migration_names (pending_files (set rows) files)"
  from loop_success [OF assms]
  have final: "schema_migrations (committed w') = Current rows'"
    and named: "\<forall>f\<in>set files. migrationNameFromFile f \<noteq> None"
    and count: "n' = n + length (pending_files (set rows) files)"
    by (simp_all add: rows'_def)
  have applied: "\<exists>name. migrationNameFromFile f = Some name \<and> name \<in> set rows'"
    if f: "f \<in> set files" for f
  proof -
    from f named obtain name where name: "migrationNameFromFile f = Some name" by auto
    show ?thesis
    proof (cases "name \<in> set rows")
      case True
      with name show ?thesis by (auto simp: rows'_def)
    next
      case False
      with f name have "f \<in> set (pending_files (set rows) files)"
        by (simp add: pending_files_def)
      with name have "name \<in> set (migration_names (pending_files (set rows) files))"
        by (auto simp: set_migration_names)
      with name show ?thesis by (auto simp: rows'_def)
    qed
  qed
  have counted: "n' \<noteq> n" if "f \<in> set files" "migrationNameFromFile f = Some name" "name \<notin> set rows"
    for f name
  proof -
    from that have "f \<in> set (pending_files (set rows) files)"
      by (simp add: pending_files_def)
    then have "pending_files (set rows) files \<noteq> []" by auto
    with count show ?thesis by simp
  qed
  from final applied counted show ?thesis
    by (intro exI [of _ rows']) (auto simp: rows'_def)
qed



section \<open>Evaluating the examples\<close>

lemmas name_eval = legacyMigrationVersion_def migrationNameFromFile_def Base_def drop_ext_def
  ToLower_def ascii_lower_def ParseInt_def ParseUint_def is_digit_def digit_val_def
  maxLegacyMigrationVersion_def

lemmas db_eval = driver_call_def admin_call_def sql_Open_def exec_select_1_def
  exec_create_database_def query_data_type_def exec_create_table_def query_max_version_def
  Begin_def Commit_def tx_exec_sql_def tx_insert_version_def tx_drop_create_def
  getMigrationsInDB_def char_in_varchar char_not_in_integer

lemmas run_eval = connectOrCreate_def dbCon_string_def
  runMigration_def switchoverFromAlbion_def bootstrap_def runMigrations_def
  parseDBConStr_def demo_env_def demo_env_fixed_def demo_world_def

section \<open>The claims\<close>

text \<open>
  Claim C1.  Suppose the switchover reads \<open>maxApplied\<close> as \<^verbatim>\<open>MAX(version)\<close> of the legacy
  table, the supplied files give \<open>maxAvailable\<close>, and the two differ.  Then the switchover
  returns the version mismatch error, which carries both numbers (the expected
  \<open>maxAvailable\<close> first, the actual \<open>maxApplied\<close> second); the committed database and the
  output are what they were before; \<open>maxApplied\<close> is the greatest row of the non-empty
  legacy table; and \<open>maxAvailable\<close> is the greatest legacy version among the files, or 0
  when there is none.
\<close>

theorem switchover_version_mismatch:
  assumes "query_max_version w = (Inr maxApplied, w1)"
    and "maxLegacyMigrationVersion sqlFiles = Some maxAvailable"
    and "maxApplied \<noteq> maxAvailable"
  shows "switchoverFromAlbion sqlFiles w = (Some (VersionMismatch maxAvailable maxApplied), w1)
     \<and> committed w1 = committed w \<and> stdout w1 = stdout w
     \<and> (\<exists>rows. schema_migrations (committed w) = Legacy rows \<and> rows \<noteq> []
                 \<and> maxApplied = Max (set rows))
     \<and> maxAvailable = Max (insert 0 (set (legacy_versions sqlFiles)))"
proof -
  have "switchoverFromAlbion sqlFiles w = (Some (VersionMismatch maxAvailable maxApplied), w1)"
    using assms by (simp add: switchoverFromAlbion_def)
  moreover have "maxAvailable = Max (insert 0 (set (legacy_versions sqlFiles)))"
    using assms(2) unfolding maxLegacyMigrationVersion_def by (rule maxLegacy_from_Max)
  ultimately show ?thesis
    using query_max_version_Inr [OF assms(1)] by simp
qed

text \<open>The table holds 1 and 56, the files go up to \<^verbatim>\<open>0000-0057.sql\<close>: the switchover refuses.\<close>

theorem switchover_version_mismatch_witness:
  "query_max_version (demo_world (Legacy [1, 56]) [] []) = (Inr 56, demo_world (Legacy [1, 56]) [] [])
   \<and> maxLegacyMigrationVersion [''m/0000-0001.sql'', ''m/0000-0057.sql'', ''m/2018-01-15-a.sql''] = Some 57
   \<and> switchoverFromAlbion [''m/0000-0001.sql'', ''m/0000-0057.sql'', ''m/2018-01-15-a.sql'']
        (demo_world (Legacy [1, 56]) [] [])
       = (Some (VersionMismatch 57 56), demo_world (Legacy [1, 56]) [] [])"
proof -
  have q: "query_max_version (demo_world (Legacy [1, 56]) [] [])
      = (Inr 56, demo_world (Legacy [1, 56]) [] [])"
    by (simp add: db_eval demo_world_def)
  have m: "maxLegacyMigrationVersion [''m/0000-0001.sql'', ''m/0000-0057.sql'', ''m/2018-01-15-a.sql'']
      = Some 57"
    by (simp add: name_eval)
  have "(56::int) \<noteq> 57" by simp
  from switchover_version_mismatch [OF q m this] q m show ?thesis by simp
qed



text \<open>
  Claim C3, as amended.  Take an existing database of this system (the string table), a
  list of files \<open>pre\<close> on which the run succeeds, and a next file \<open>f\<close> with which the run
  fails.
  Then the run on \<open>pre\<close>, \<open>f\<close> and any later files \<open>post\<close> fails with the same error and
  reaches the same world as the run that stops after \<open>f\<close>: no later file is attempted.
  The committed database is the one the migrations of \<open>pre\<close> left: they stay committed,
  and neither the SQL of \<open>f\<close> nor its row persists.  The error is the driver's error as it
  came, without a file name, unless the file could not be read (or its name could not be
  formed).  Running again from there, with whatever the files now contain, skips \<open>pre\<close>
  and behaves as a run on \<open>f\<close> and \<open>post\<close> alone.
\<close>

theorem failed_migration_stops_run:
  assumes cur: "created w" "schema_migrations (committed w) = Current rows"
    and before: "runMigrations env dbStr pre w = (None, w1)"
    and fails: "runMigrations env dbStr (pre @ [f]) w = (Some e, w2)"
  shows "runMigrations env dbStr (pre @ f # post) w = (Some e, w2)
     \<and> committed w2 = committed w1
     \<and> (e = ReadFileFailed f \<or> (\<exists>d. e = DriverError d)
          \<or> (e = Panic \<and> migrationNameFromFile f = None))
     \<and> (\<forall>env'. runMigrations env' dbStr (pre @ f # post) w2
                 = runMigrations env' dbStr (f # post) w2)"
proof -
  obtain con where parse: "parseDBConStr dbStr = (con, None)"
    using before by (cases "parseDBConStr dbStr") (auto simp: runMigrations_def split: option.splits)
  obtain rc w0 where conn0: "connectOrCreate con w = (rc, w0)"
    by (cases "connectOrCreate con w")
  with before parse have "rc = None"
    by (auto simp: runMigrations_def split: option.splits)
  with conn0 have conn: "connectOrCreate con w = (None, w0)" by simp
  from connectOrCreate_success [OF conn] cur
  have cur0: "schema_migrations (committed w0) = Current rows" and cr0: "created w0"
    by simp_all
  note unfold = runMigrations_Current [OF parse conn cur0]
  obtain failed wa where dc: "driver_call w0 = (failed, wa)" by (cases "driver_call w0")
  obtain failed2 wb where dc2: "driver_call wa = (failed2, wb)" by (cases "driver_call wa")
  from before dc dc2 have ok: "\<not> failed" "\<not> failed2"
    by (auto simp: unfold split: if_splits)
  from driver_call_props [OF dc] driver_call_props [OF dc2] cur0 cr0
  have sb: "schema_migrations (committed wb) = Current rows" and crb: "created wb"
    by simp_all
  obtain rl wl where l: "runMigrations_loop env (set rows) pre 0 wb = (rl, wl)"
    by (cases "runMigrations_loop env (set rows) pre 0 wb")
  from before dc dc2 ok l obtain n where rl: "rl = Inr n"
    by (cases rl) (auto simp: unfold)
  from before dc dc2 ok l rl have c1: "committed w1 = committed wl"
    by (auto simp: unfold split: if_splits)
  from l rl have lpre: "runMigrations_loop env (set rows) pre 0 wb = (Inr n, wl)" by simp
  from loop_created [OF lpre] crb have crl: "created wl" by simp
  have app: "runMigrations_loop env (set rows) (pre @ fs) 0 wb = runMigrations_loop env (set rows) fs n wl"
    for fs
    by (simp add: loop_append lpre)
  from fails dc dc2 ok have one: "runMigrations_loop env (set rows) [f] n wl = (Inl e, w2)"
    by (auto simp: unfold app split: prod.splits sum.splits if_splits)
  have step: "runMigrations_loop env (set rows) (f # post) n wl = (Inl e, w2)"
    and kind: "e = ReadFileFailed f \<or> (\<exists>d. e = DriverError d)
        \<or> (e = Panic \<and> migrationNameFromFile f = None)"
    and same: "committed w2 = committed wl"
  proof -
    show "runMigrations_loop env (set rows) (f # post) n wl = (Inl e, w2)"
      using one by (auto split: option.splits if_splits prod.splits)
    show "e = ReadFileFailed f \<or> (\<exists>d. e = DriverError d)
        \<or> (e = Panic \<and> migrationNameFromFile f = None)"
      using one by (auto split: option.splits if_splits prod.splits dest: runMigration_error_kind)
    show "committed w2 = committed wl"
      using one by (auto split: option.splits if_splits prod.splits dest: runMigration_failure)
  qed
  from loop_created [OF one] crl have cr2: "created w2" by simp
  have full: "runMigrations env dbStr (pre @ f # post) w = (Some e, w2)"
    using dc dc2 ok step by (simp add: unfold app)
  from loop_success_applied [OF lpre sb] obtain rows' where
    s': "schema_migrations (committed wl) = Current rows'" and
    done_pre: "\<forall>g\<in>set pre. \<exists>name. migrationNameFromFile g = Some name \<and> name \<in> set rows'"
    by blast
  from s' same have s2: "schema_migrations (committed w2) = Current rows'" by simp
  have rerun: "runMigrations env' dbStr (pre @ f # post) w2 = runMigrations env' dbStr (f # post) w2"
    for env'
  proof -
    obtain rc2 w3 where conn2: "connectOrCreate con w2 = (rc2, w3)"
      by (cases "connectOrCreate con w2")
    show ?thesis
    proof (cases rc2)
      case (Some e2)
      with conn2 parse show ?thesis
        by (simp add: runMigrations_connect_failed)
    next
      case None
      with conn2 have conn3: "connectOrCreate con w2 = (None, w3)" by simp
      from connectOrCreate_success [OF conn3] cr2 s2
      have s3: "schema_migrations (committed w3) = Current rows'" by simp
      have eq: "runMigrations_loop env' (set rows') (pre @ f # post) 0 wx
          = runMigrations_loop env' (set rows') (f # post) 0 wx" for wx
        using loop_skip_all [OF done_pre, of env' 0 wx] by (simp add: loop_append)
      show ?thesis
        by (simp only: runMigrations_Current [OF parse conn3 s3] eq)
    qed
  qed
  from full same c1 kind rerun show ?thesis by simp
qed

text \<open>
  Three pending files, the second with rejected SQL: the first stays committed, the third
  is not attempted, and after the second file has been corrected the next run applies the
  second and the third only.
\<close>

theorem failed_migration_stops_run_witness:
  "created (demo_world (Current []) [] [])
   \<and> schema_migrations (committed (demo_world (Current []) [] [])) = Current []
   \<and> runMigrations demo_env ''postgres:localhost:0:newdb:u:p'' [''m/2018-01-15-a.sql'']
        (demo_world (Current []) [] [])
       = (None, demo_world (Current [''2018-01-15-a'']) [''create c'']
                  [''Running migration 2018-01-15-a''])
   \<and> runMigrations demo_env ''postgres:localhost:0:newdb:u:p''
        [''m/2018-01-15-a.sql'', ''m/2018-02-01-b.sql'', ''m/2018-03-01-c.sql'']
        (demo_world (Current []) [] [])
       = (Some (DriverError StatementFailed),
          demo_world (Current [''2018-01-15-a'']) [''create c'']
            [''Running migration 2018-01-15-a'', ''Running migration 2018-02-01-b''])
   \<and> runMigrations demo_env_fixed ''postgres:localhost:0:newdb:u:p''
        [''m/2018-01-15-a.sql'', ''m/2018-02-01-b.sql'', ''m/2018-03-01-c.sql'']
        (demo_world (Current [''2018-01-15-a'']) [''create c'']
            [''Running migration 2018-01-15-a'', ''Running migration 2018-02-01-b''])
       = (None,
          demo_world (Current [''2018-01-15-a'', ''2018-02-01-b'', ''2018-03-01-c''])
            [''create c'', ''create e'', ''create d'']
            [''Running migration 2018-01-15-a'', ''Running migration 2018-02-01-b'',
             ''Running migration 2018-02-01-b'', ''Running migration 2018-03-01-c''])"
proof -
  have cur: "schema_migrations (committed (demo_world (Current []) [] [])) = Current []"
    by (simp add: demo_world_def)
  have before: "runMigrations demo_env ''postgres:localhost:0:newdb:u:p'' [''m/2018-01-15-a.sql'']
        (demo_world (Current []) [] [])
       = (None, demo_world (Current [''2018-01-15-a'']) [''create c'']
                  [''Running migration 2018-01-15-a''])"
    by (simp add: name_eval db_eval run_eval)
  have fails: "runMigrations demo_env ''postgres:localhost:0:newdb:u:p''
        ([''m/2018-01-15-a.sql''] @ [''m/2018-02-01-b.sql''])
        (demo_world (Current []) [] [])
       = (Some (DriverError StatementFailed),
          demo_world (Current [''2018-01-15-a'']) [''create c'']
            [''Running migration 2018-01-15-a'', ''Running migration 2018-02-01-b''])"
    by (simp add: name_eval db_eval run_eval)
  have rerun: "runMigrations demo_env_fixed ''postgres:localhost:0:newdb:u:p''
        [''m/2018-02-01-b.sql'', ''m/2018-03-01-c.sql'']
        (demo_world (Current [''2018-01-15-a'']) [''create c'']
            [''Running migration 2018-01-15-a'', ''Running migration 2018-02-01-b''])
       = (None,
          demo_world (Current [''2018-01-15-a'', ''2018-02-01-b'', ''2018-03-01-c''])
            [''create c'', ''create e'', ''create d'']
            [''Running migration 2018-01-15-a'', ''Running migration 2018-02-01-b'',
             ''Running migration 2018-02-01-b'', ''Running migration 2018-03-01-c''])"
    by (simp add: name_eval db_eval run_eval)
  have cr: "created (demo_world (Current []) [] [])"
    by (simp add: demo_world_def)
  from failed_migration_stops_run [OF cr cur before fails, of "[''m/2018-03-01-c.sql'']"]
    cr cur before rerun
  show ?thesis by simp
qed

text \<open>
  Claim C3 as stated has the run fail with an error naming the offending file.  The error
  returned for rejected SQL is the driver's own and names no file.
\<close>

theorem apply_error_names_no_file:
  "fst (runMigrations demo_env ''postgres:localhost:0:newdb:u:p''
        [''m/2018-01-15-a.sql'', ''m/2018-02-01-b.sql'', ''m/2018-03-01-c.sql'']
        (demo_world (Current []) [] []))
     = Some (DriverError StatementFailed)
   \<and> \<not> names_file (DriverError StatementFailed) ''m/2018-02-01-b.sql''"
  by (simp add: name_eval db_eval run_eval)

text \<open>
  Claim C4.  After a run that returned no error, a second run with the same files on a
  connection that stays up returns no error, leaves the world as it is (no migration is applied,
  nothing is committed, the table keeps its rows) and prints the one line
  \<^verbatim>\<open>Database is up to date\<close>.
\<close>

theorem second_run_up_to_date:
  assumes "runMigrations env dbStr sqlFiles w = (None, w1)"
    and "faults w1 = []"
  shows "runMigrations env dbStr sqlFiles w1 =
           (None, w1\<lparr>stdout := stdout w1 @ [''Database is up to date'']\<rparr>)"
proof -
  obtain con where parse: "parseDBConStr dbStr = (con, None)"
    using assms(1) by (cases "parseDBConStr dbStr") (auto simp: runMigrations_def split: option.splits)
  obtain rc w0 where conn: "connectOrCreate con w = (rc, w0)"
    by (cases "connectOrCreate con w")
  with assms(1) parse have rc: "rc = None"
    by (auto simp: runMigrations_def split: option.splits)
  obtain rb wb where b: "bootstrap env (dbname con) sqlFiles w0 = (rb, wb)"
    by (cases "bootstrap env (dbname con) sqlFiles w0")
  with assms(1) parse conn rc have rb: "rb = None"
    by (auto simp: runMigrations_def split: option.splits)
  from bootstrap_success_Current b rb obtain rows where rows: "schema_migrations (committed wb) = Current rows"
    by blast
  from bootstrap_success_created b rb have crb: "created wb"
    by blast
  obtain failed wg where dc: "driver_call wb = (failed, wg)" by (cases "driver_call wb")
  note p = driver_call_props [OF dc]
  from assms(1) parse conn rc b rb rows dc have ok: "\<not> failed"
    by (auto simp: runMigrations_def getMigrationsInDB_Current split: if_splits)
  from p rows have rowsg: "schema_migrations (committed wg) = Current rows" by simp
  obtain rl wl where l: "runMigrations_loop env (set rows) sqlFiles 0 wg = (rl, wl)"
    by (cases "runMigrations_loop env (set rows) sqlFiles 0 wg")
  from assms(1) parse conn rc b rb rows dc ok l obtain n where rl: "rl = Inr n"
    by (cases rl) (auto simp: runMigrations_def getMigrationsInDB_Current)
  from assms(1) parse conn rc b rb rows dc ok l rl have c1: "committed w1 = committed wl"
    and cr1: "created w1 = created wl"
    by (auto simp: runMigrations_def getMigrationsInDB_Current split: if_splits)
  from loop_created [OF l] p crb cr1 have created: "created w1" by simp
  from l rl have "runMigrations_loop env (set rows) sqlFiles 0 wg = (Inr n, wl)" by simp
  from loop_success_applied [OF this rowsg] c1 obtain rows1 where
    s1: "schema_migrations (committed w1) = Current rows1" and
    applied: "\<forall>f\<in>set sqlFiles. \<exists>name. migrationNameFromFile f = Some name \<and> name \<in> set rows1"
    by auto
  have skip: "runMigrations_loop env (set rows1) sqlFiles 0 w1 = (Inr 0, w1)"
    using applied by (rule loop_skip_all)
  have conn1: "connectOrCreate con w1 = (None, w1)"
    using assms(2) created parse_driver [OF parse] by (rule connectOrCreate_healthy)
  show ?thesis
    using skip assms(2) created
    by (simp add: runMigrations_Current [OF parse conn1 s1] driver_call_healthy)
qed

text \<open>
  A database that does not exist yet and three files: the first run creates the
  database and applies the files, the second finds nothing to do.
\<close>

theorem second_run_up_to_date_witness:
  "runMigrations demo_env ''postgres:localhost:0:newdb:u:p''
     [''m/0000-0000.sql'', ''m/0000-0001.sql'', ''m/2018-01-15-a.sql'']
     ((demo_world Absent [] [])\<lparr>created := False\<rparr>)
   = (None, demo_world (Current [''0000-0000'', ''0000-0001'', ''2018-01-15-a''])
        [''create a'', ''create b'', ''create c'']
        [''Running migration 0000-0000'', ''Running migration 0000-0001'',
         ''Running migration 2018-01-15-a''])
   \<and> runMigrations demo_env ''postgres:localhost:0:newdb:u:p''
     [''m/0000-0000.sql'', ''m/0000-0001.sql'', ''m/2018-01-15-a.sql'']
     (demo_world (Current [''0000-0000'', ''0000-0001'', ''2018-01-15-a''])
        [''create a'', ''create b'', ''create c'']
        [''Running migration 0000-0000'', ''Running migration 0000-0001'',
         ''Running migration 2018-01-15-a''])
   = (None, demo_world (Current [''0000-0000'', ''0000-0001'', ''2018-01-15-a''])
        [''create a'', ''create b'', ''create c'']
        [''Running migration 0000-0000'', ''Running migration 0000-0001'',
         ''Running migration 2018-01-15-a'', ''Database is up to date''])"
proof -
  have first: "runMigrations demo_env ''postgres:localhost:0:newdb:u:p''
     [''m/0000-0000.sql'', ''m/0000-0001.sql'', ''m/2018-01-15-a.sql'']
     ((demo_world Absent [] [])\<lparr>created := False\<rparr>)
   = (None, demo_world (Current [''0000-0000'', ''0000-0001'', ''2018-01-15-a''])
        [''create a'', ''create b'', ''create c'']
        [''Running migration 0000-0000'', ''Running migration 0000-0001'',
         ''Running migration 2018-01-15-a''])"
    by (simp add: name_eval db_eval run_eval)
  have up: "faults (demo_world (Current [''0000-0000'', ''0000-0001'', ''2018-01-15-a''])
        [''create a'', ''create b'', ''create c'']
        [''Running migration 0000-0000'', ''Running migration 0000-0001'',
         ''Running migration 2018-01-15-a'']) = []"
    by (simp add: demo_world_def)
  from second_run_up_to_date [OF first up] first show ?thesis
    by (simp add: demo_world_def)
qed

text \<open>
  Claim C5, as amended.  On a database without the table (a database that exists and
  has no such table, or one that \<open>connectOrCreate\<close> has to create), a run that returns no
  error has first, in \<open>bootstrap\<close>, created the string table and applied the legacy-named
  files in their order, and then applied the other files in their order.  The table ends with
  the names of the legacy files followed by the names of the others, one row for each
  supplied file, and as a set these are the names of all supplied files.  The SQL has
  run in that order too, which is the supplied order when every legacy-named file stands
  before every other file in the list.
\<close>

theorem fresh_database_run:
  assumes "schema_migrations (committed w) = Absent"
    and "runMigrations env dbStr sqlFiles w = (None, w')"
  shows "(\<exists>con w0 wb. parseDBConStr dbStr = (con, None)
            \<and> connectOrCreate con w = (None, w0)
            \<and> bootstrap env (dbname con) sqlFiles w0 = (None, wb)
            \<and> schema_migrations (committed wb) = Current (migration_names (legacy_files sqlFiles))
            \<and> exec_files env (legacy_files sqlFiles) (userdata (committed w))
                = Some (userdata (committed wb)))
     \<and> schema_migrations (committed w')
         = Current (migration_names (legacy_files sqlFiles @ standard_files sqlFiles))
     \<and> exec_files env (legacy_files sqlFiles @ standard_files sqlFiles) (userdata (committed w))
         = Some (userdata (committed w'))
     \<and> set (migration_names (legacy_files sqlFiles @ standard_files sqlFiles))
         = set (migration_names sqlFiles)
     \<and> length (migration_names (legacy_files sqlFiles @ standard_files sqlFiles)) = length sqlFiles
     \<and> (legacy_files sqlFiles @ standard_files sqlFiles = sqlFiles \<longrightarrow>
          schema_migrations (committed w') = Current (migration_names sqlFiles)
          \<and> exec_files env sqlFiles (userdata (committed w)) = Some (userdata (committed w')))"
proof -
  obtain con where parse: "parseDBConStr dbStr = (con, None)"
    using assms(2) by (cases "parseDBConStr dbStr") (auto simp: runMigrations_def split: option.splits)
  obtain rc w0 where conn: "connectOrCreate con w = (rc, w0)"
    by (cases "connectOrCreate con w")
  with assms(2) parse have rc: "rc = None"
    by (auto simp: runMigrations_def split: option.splits)
  with conn have conn': "connectOrCreate con w = (None, w0)" by simp
  from connectOrCreate_success [OF conn'] assms(1)
  have fresh0: "schema_migrations (committed w0) = Absent"
    and u0: "userdata (committed w0) = userdata (committed w)"
    by (simp_all split: if_splits)
  obtain rb wb where b: "bootstrap env (dbname con) sqlFiles w0 = (rb, wb)"
    by (cases "bootstrap env (dbname con) sqlFiles w0")
  with assms(2) parse conn' have rb: "rb = None"
    by (auto simp: runMigrations_def split: option.splits)
  with b have b': "bootstrap env (dbname con) sqlFiles w0 = (None, wb)" by simp
  from bootstrap_Absent_success [OF fresh0 b'] u0
  have sb: "schema_migrations (committed wb) = Current (migration_names (legacy_files sqlFiles))"
    and ub: "exec_files env (legacy_files sqlFiles) (userdata (committed w)) = Some (userdata (committed wb))"
    and named: "\<forall>f\<in>set sqlFiles. migrationNameFromFile f \<noteq> None"
    by simp_all
  define ex where "ex = set (migration_names (legacy_files sqlFiles))"
  obtain failed wg where dc: "driver_call wb = (failed, wg)" by (cases "driver_call wb")
  note p = driver_call_props [OF dc]
  from assms(2) parse conn' b' sb dc have ok: "\<not> failed"
    by (auto simp: runMigrations_def getMigrationsInDB_Current split: if_splits)
  from p sb have sg: "schema_migrations (committed wg) = Current (migration_names (legacy_files sqlFiles))"
    by simp
  obtain rl wl where l: "runMigrations_loop env ex sqlFiles 0 wg = (rl, wl)"
    by (cases "runMigrations_loop env ex sqlFiles 0 wg")
  from assms(2) parse conn' b' sb dc ok l obtain n where rl: "rl = Inr n"
    by (cases rl) (auto simp: runMigrations_def getMigrationsInDB_Current ex_def)
  from assms(2) parse conn' b' sb dc ok l rl have c': "committed w' = committed wl"
    by (auto simp: runMigrations_def getMigrationsInDB_Current ex_def split: if_splits)
  from l rl have "runMigrations_loop env ex sqlFiles 0 wg = (Inr n, wl)" by simp
  from loop_success [OF this sg] pending_after_replay [OF named] p
  have sl: "schema_migrations (committed wl) =
        Current (migration_names (legacy_files sqlFiles) @ migration_names (standard_files sqlFiles))"
    and ul: "exec_files env (standard_files sqlFiles) (userdata (committed wb)) = Some (userdata (committed wl))"
    by (simp_all add: ex_def)
  have rows: "schema_migrations (committed w')
         = Current (migration_names (legacy_files sqlFiles @ standard_files sqlFiles))"
    using sl c' by (simp add: migration_names_append)
  have data: "exec_files env (legacy_files sqlFiles @ standard_files sqlFiles) (userdata (committed w))
         = Some (userdata (committed w'))"
    using ub ul c' by (simp add: exec_files_append)
  have len: "length (migration_names (legacy_files sqlFiles @ standard_files sqlFiles)) = length sqlFiles"
  proof -
    have n: "length (migration_names fs) = length fs" if "\<forall>f\<in>set fs. migrationNameFromFile f \<noteq> None" for fs
      using that by (induction fs) (auto simp: migration_names_Cons)
    have "length (migration_names (legacy_files sqlFiles @ standard_files sqlFiles))
        = length (legacy_files sqlFiles @ standard_files sqlFiles)"
      using named by (intro n) (auto simp: legacy_files_def standard_files_def)
    also have "\<dots> = length sqlFiles"
      using sum_length_filter_compl [of is_legacy sqlFiles]
      by (simp add: legacy_files_def standard_files_def)
    finally show ?thesis .
  qed
  from parse conn' b' sb ub rows data len show ?thesis
    by (auto simp: set_partition_names)
qed

text \<open>The files \<^verbatim>\<open>0000-0000.sql\<close>, \<^verbatim>\<open>0000-0001.sql\<close> and \<^verbatim>\<open>2018-01-15-a.sql\<close> on a fresh database.\<close>

theorem fresh_database_run_witness:
  "schema_migrations (committed (demo_world Absent [] [])) = Absent
   \<and> runMigrations demo_env ''postgres:localhost:0:newdb:u:p''
     [''m/0000-0000.sql'', ''m/0000-0001.sql'', ''m/2018-01-15-a.sql''] (demo_world Absent [] [])
   = (None, demo_world (Current [''0000-0000'', ''0000-0001'', ''2018-01-15-a''])
        [''create a'', ''create b'', ''create c'']
        [''Running migration 0000-0000'', ''Running migration 0000-0001'',
         ''Running migration 2018-01-15-a''])
   \<and> legacy_files [''m/0000-0000.sql'', ''m/0000-0001.sql'', ''m/2018-01-15-a.sql'']
       = [''m/0000-0000.sql'', ''m/0000-0001.sql'']
   \<and> standard_files [''m/0000-0000.sql'', ''m/0000-0001.sql'', ''m/2018-01-15-a.sql'']
       = [''m/2018-01-15-a.sql'']
   \<and> exec_files demo_env [''m/0000-0000.sql'', ''m/0000-0001.sql'', ''m/2018-01-15-a.sql''] []
       = Some [''create a'', ''create b'', ''create c'']"
proof -
  have fresh: "schema_migrations (committed (demo_world Absent [] [])) = Absent"
    by (simp add: demo_world_def)
  have run: "runMigrations demo_env ''postgres:localhost:0:newdb:u:p''
     [''m/0000-0000.sql'', ''m/0000-0001.sql'', ''m/2018-01-15-a.sql''] (demo_world Absent [] [])
   = (None, demo_world (Current [''0000-0000'', ''0000-0001'', ''2018-01-15-a''])
        [''create a'', ''create b'', ''create c'']
        [''Running migration 0000-0000'', ''Running migration 0000-0001'',
         ''Running migration 2018-01-15-a''])"
    by (simp add: name_eval db_eval run_eval)
  have l: "legacy_files [''m/0000-0000.sql'', ''m/0000-0001.sql'', ''m/2018-01-15-a.sql'']
       = [''m/0000-0000.sql'', ''m/0000-0001.sql'']"
    by (simp add: legacy_files_def is_legacy_def name_eval)
  have s: "standard_files [''m/0000-0000.sql'', ''m/0000-0001.sql'', ''m/2018-01-15-a.sql'']
       = [''m/2018-01-15-a.sql'']"
    by (simp add: standard_files_def is_legacy_def name_eval)
  from fresh_database_run [OF fresh run] fresh run l s show ?thesis
    by (simp add: demo_world_def)
qed

text \<open>
  Claim C5 as stated has all files executed in the supplied lexical order.  The file
  \<^verbatim>\<open>0000-0001-fix.sql\<close> sorts before \<^verbatim>\<open>0000-0001.sql\<close> (a hyphen is less than a full
  stop) and is not legacy-named; on a fresh database the legacy file runs first, so the
  statements run in the opposite order to the one the list gives.
\<close>

theorem legacy_replayed_before_earlier_file:
  "''m/0000-0001-fix.sql'' < ''m/0000-0001.sql''
   \<and> runMigrations demo_env ''postgres:localhost:0:newdb:u:p''
     [''m/0000-0001-fix.sql'', ''m/0000-0001.sql''] (demo_world Absent [] [])
   = (None, demo_world (Current [''0000-0001'', ''0000-0001-fix''])
        [''create b'', ''alter b'']
        [''Running migration 0000-0001'', ''Running migration 0000-0001-fix''])
   \<and> exec_files demo_env [''m/0000-0001-fix.sql'', ''m/0000-0001.sql''] []
       = Some [''alter b'', ''create b'']"
proof -
  have order: "''m/0000-0001-fix.sql'' < ''m/0000-0001.sql''"
    by (simp add: less_char_def)
  have run: "runMigrations demo_env ''postgres:localhost:0:newdb:u:p''
     [''m/0000-0001-fix.sql'', ''m/0000-0001.sql''] (demo_world Absent [] [])
   = (None, demo_world (Current [''0000-0001'', ''0000-0001-fix''])
        [''create b'', ''alter b'']
        [''Running migration 0000-0001'', ''Running migration 0000-0001-fix''])"
    by (simp add: name_eval db_eval run_eval)
  have supplied: "exec_files demo_env [''m/0000-0001-fix.sql'', ''m/0000-0001.sql''] []
       = Some [''alter b'', ''create b'']"
    by (simp add: demo_env_def)
  from order run supplied show ?thesis by simp
qed







text \<open>
  Claim C8.  Parsing fails exactly when the string does not split at its colons into six
  fields or the first field is not \<^verbatim>\<open>postgres\<close>; the number of fields is the number of
  colons plus one; on success the six fields are, in this order, driver, host, port,
  database name, user and password; and on failure \<open>runMigrations\<close> returns the parser's
  error with the world untouched (no connection is opened, nothing is written).
\<close>

theorem parseDBConStr_fails_iff:
  "(snd (parseDBConStr s) \<noteq> None \<longleftrightarrow>
      (length (split_on CHR '':'' s) \<noteq> 6 \<or> hd (split_on CHR '':'' s) \<noteq> ''postgres''))
   \<and> length (split_on CHR '':'' s) = Suc (count_list s CHR '':'')
   \<and> (snd (parseDBConStr s) = None \<longrightarrow>
        split_on CHR '':'' s =
          [driver (fst (parseDBConStr s)), host (fst (parseDBConStr s)),
           port (fst (parseDBConStr s)), dbname (fst (parseDBConStr s)),
           user (fst (parseDBConStr s)), password (fst (parseDBConStr s))])
   \<and> (snd (parseDBConStr s) \<noteq> None \<longrightarrow>
        runMigrations env s sqlFiles w = (snd (parseDBConStr s), w))"
proof -
  have fails: "snd (parseDBConStr s) \<noteq> None \<longleftrightarrow>
      (length (split_on CHR '':'' s) \<noteq> 6 \<or> hd (split_on CHR '':'' s) \<noteq> ''postgres'')"
    by (simp add: parse_ok_iff)
  have count: "length (split_on CHR '':'' s) = Suc (count_list s CHR '':'')"
    by (rule length_split_on)
  have fields: "snd (parseDBConStr s) = None \<longrightarrow>
        split_on CHR '':'' s =
          [driver (fst (parseDBConStr s)), host (fst (parseDBConStr s)),
           port (fst (parseDBConStr s)), dbname (fst (parseDBConStr s)),
           user (fst (parseDBConStr s)), password (fst (parseDBConStr s))]"
    using parse_fields [of s] by blast
  have pure: "snd (parseDBConStr s) \<noteq> None \<longrightarrow>
        runMigrations env s sqlFiles w = (snd (parseDBConStr s), w)"
    using runMigrations_parse_error [of s env sqlFiles w] by blast
  from fails count fields pure show ?thesis
    by blast
qed

text \<open>One descriptor that parses, one with an unsupported driver, one with three fields.\<close>

theorem parseDBConStr_fails_iff_witness:
  "snd (parseDBConStr ''postgres:localhost:5432:maindb:alice:secret'') = None
   \<and> split_on CHR '':'' ''postgres:localhost:5432:maindb:alice:secret''
        = [''postgres'', ''localhost'', ''5432'', ''maindb'', ''alice'', ''secret'']
   \<and> snd (parseDBConStr ''mysql:localhost:3306:maindb:alice:secret'') = Some (NotPostgres ''mysql'')
   \<and> runMigrations demo_env ''mysql:localhost:3306:maindb:alice:secret''
        [''m/0000-0000.sql''] (demo_world Absent [] [])
        = (Some (NotPostgres ''mysql''), demo_world Absent [] [])
   \<and> snd (parseDBConStr ''postgres:localhost:maindb'') = Some (BadPartCount 3)
   \<and> runMigrations demo_env ''postgres:localhost:maindb''
        [''m/0000-0000.sql''] (demo_world Absent [] [])
        = (Some (BadPartCount 3), demo_world Absent [] [])"
proof -
  have a: "snd (parseDBConStr ''postgres:localhost:5432:maindb:alice:secret'') = None"
    by (simp add: parseDBConStr_def)
  have b: "snd (parseDBConStr ''mysql:localhost:3306:maindb:alice:secret'') = Some (NotPostgres ''mysql'')"
    by (simp add: parseDBConStr_def)
  have c: "snd (parseDBConStr ''postgres:localhost:maindb'') = Some (BadPartCount 3)"
    by (simp add: parseDBConStr_def)
  from a b c
    parseDBConStr_fails_iff [of "''postgres:localhost:5432:maindb:alice:secret''"]
    parseDBConStr_fails_iff [of "''mysql:localhost:3306:maindb:alice:secret''" demo_env "[''m/0000-0000.sql'']" "demo_world Absent [] []"]
    parseDBConStr_fails_iff [of "''postgres:localhost:maindb''" demo_env "[''m/0000-0000.sql'']" "demo_world Absent [] []"]
  show ?thesis by simp
qed





end
